theory Spec2Isabelle
  imports Complex_Main
begin

section \<open>The rotation-matrix-to-quaternion functor\<close>

text \<open>
  The unit test \<^verbatim>\<open>jacobians_slam3d.cpp\<close> defines the functor
  \<^verbatim>\<open>RotationMatrix2QuaternionManifold\<close>, whose call operator is a template over the
  scalar type \<^verbatim>\<open>T\<close>. It is embedded here at the scalar type \<^typ>\<open>real\<close>: the
  arithmetic is exact, and the two operations of the source that leave the real numbers
  (the square root of a negative number, a division by zero; \<^verbatim>\<open>NaN\<close> and
  \<^verbatim>\<open>inf\<close> in IEEE arithmetic) are branches of the model that return an error value.

  The argument \<^verbatim>\<open>rotMatSerialized\<close> points to nine scalars, viewed through
  \<^verbatim>\<open>Eigen::Matrix<T, 3, 3>::ConstMapType\<close>, which is column-major: entry
  \<^verbatim>\<open>R(r,c)\<close> is element \<^verbatim>\<open>r + 3*c\<close> of the array. The argument
  \<^verbatim>\<open>quaternion\<close> points to the three scalars that receive the imaginary part; it is a
  list that is passed in and returned updated.
\<close>

datatype arith_error = SqrtOfNegative | DivisionByZero

definition sqrt_T :: "real \<Rightarrow> arith_error + real" where
  "sqrt_T x = (if x < 0 then Inl SqrtOfNegative else Inr (sqrt x))"

definition div_T :: "real \<Rightarrow> real \<Rightarrow> arith_error + real" where
  "div_T a b = (if b = 0 then Inl DivisionByZero else Inr (a / b))"

definition R_at :: "real list \<Rightarrow> nat \<Rightarrow> nat \<Rightarrow> real" where
  "R_at rotMatSerialized r c = rotMatSerialized ! (r + 3 * c)"

definition trace_R :: "real list \<Rightarrow> real" where
  "trace_R m = R_at m 0 0 + R_at m 1 1 + R_at m 2 2"

text \<open>
  The index selection of the else-branch:
  \<^verbatim>\<open>int i = 0; if (R(1,1) > R(0,0)) i = 1; if (R(2,2) > R(i,i)) i = 2;\<close>
\<close>

definition select_i :: "real list \<Rightarrow> nat" where
  "select_i m =
     (let i = 0;
          i = (if R_at m 1 1 > R_at m 0 0 then 1 else i);
          i = (if R_at m 2 2 > R_at m i i then 2 else i)
      in i)"

text \<open>
  The same selection in the words of the specification: the diagonal is scanned in the
  order 0, 1, 2 with a running maximum, and the selected index changes only at an entry
  that strictly exceeds the running maximum. It is compared with \<open>select_i\<close> below.
\<close>

definition running_max_index :: "real list \<Rightarrow> nat" where
  "running_max_index ds =
     fst (foldl (\<lambda>(best, mx) l. if ds ! l > mx then (l, ds ! l) else (best, mx))
            (0, ds ! 0) [1..<length ds])"

text \<open>
  The normalisation loop
  \<^verbatim>\<open>for (int l = 0; l < 3; ++l) quaternion[l] *= T(-1);\<close>
\<close>

definition negate_quaternion :: "real list \<Rightarrow> real list" where
  "negate_quaternion quaternion =
     fold (\<lambda>l q. q[l := q ! l * (- 1)]) [0..<3] quaternion"

definition RotationMatrix2QuaternionManifold ::
  "real list \<Rightarrow> real list \<Rightarrow> arith_error + (bool \<times> real list)" where
  "RotationMatrix2QuaternionManifold m quaternion =
     (let t = trace_R m in
      if t > 0 then
        (case sqrt_T (t + 1) of
           Inl e \<Rightarrow> Inl e
         | Inr t \<Rightarrow>
            (case div_T 0.5 t of
               Inl e \<Rightarrow> Inl e
             | Inr t \<Rightarrow>
                 let quaternion = quaternion[0 := (R_at m 2 1 - R_at m 1 2) * t];
                     quaternion = quaternion[1 := (R_at m 0 2 - R_at m 2 0) * t];
                     quaternion = quaternion[2 := (R_at m 1 0 - R_at m 0 1) * t]
                 in Inr (True, quaternion)))
      else
        (let i = select_i m;
             j = (i + 1) mod 3;
             k = (j + 1) mod 3
         in case sqrt_T (R_at m i i - R_at m j j - R_at m k k + 1) of
              Inl e \<Rightarrow> Inl e
            | Inr t \<Rightarrow>
               (let quaternion = quaternion[i := 0.5 * t]
                in case div_T 0.5 t of
                     Inl e \<Rightarrow> Inl e
                   | Inr t \<Rightarrow>
                       let quaternion = quaternion[j := (R_at m j i + R_at m i j) * t];
                           quaternion = quaternion[k := (R_at m k i + R_at m i k) * t];
                           w = (R_at m k j - R_at m j k) * t
                       in Inr (True, if w < 0 then negate_quaternion quaternion
                                     else quaternion))))"

text \<open>
  The inputs of the functor in the unit test are rotation matrices. A rotation matrix has
  orthonormal columns and determinant one; the predicate is used to show that the concrete
  inputs at which the theorems below are instantiated are rotation matrices.
\<close>

definition col_dot :: "real list \<Rightarrow> nat \<Rightarrow> nat \<Rightarrow> real" where
  "col_dot m a b = R_at m 0 a * R_at m 0 b + R_at m 1 a * R_at m 1 b + R_at m 2 a * R_at m 2 b"

definition det_R :: "real list \<Rightarrow> real" where
  "det_R m =
     R_at m 0 0 * (R_at m 1 1 * R_at m 2 2 - R_at m 1 2 * R_at m 2 1)
   - R_at m 0 1 * (R_at m 1 0 * R_at m 2 2 - R_at m 1 2 * R_at m 2 0)
   + R_at m 0 2 * (R_at m 1 0 * R_at m 2 1 - R_at m 1 1 * R_at m 2 0)"

definition is_rotation :: "real list \<Rightarrow> bool" where
  "is_rotation m \<longleftrightarrow>
     length m = 9
     \<and> col_dot m 0 0 = 1 \<and> col_dot m 1 1 = 1 \<and> col_dot m 2 2 = 1
     \<and> col_dot m 0 1 = 0 \<and> col_dot m 0 2 = 0 \<and> col_dot m 1 2 = 0
     \<and> det_R m = 1"

section \<open>The linearization dispatcher and the Jacobian workspace\<close>

text \<open>
  The unit test calls \<^verbatim>\<open>linearizeOplus\<close> of \<^verbatim>\<open>BaseBinaryEdge\<close> and the
  \<^verbatim>\<open>JacobianWorkspace\<close> of \<^verbatim>\<open>g2o/core\<close>; neither is among the sources. The
  definitions of this section are modelled from the specification (sections 3, 4.2, 4.3, 5, 6
  and 7). Scalars are real numbers. A configuration error (a workspace that was not sized
  and allocated, a dimension mismatch) is an explicit error result, which carries the state
  at the point of failure.
\<close>

datatype eval_error = WorkspaceNotAllocated | DimensionMismatch

text \<open>
  Modelled from the spec: the vertex (state entity), whose class is not among the sources.
  It has an identity, a manifold estimate, a dimension \<open>D_v\<close>, and an oplus operation that
  consumes a tangent vector and updates the estimate.
\<close>

record 'v vertex =
  vid :: int
  estimate :: 'v
  dimension :: nat
  oplus_fn :: "'v \<Rightarrow> real list \<Rightarrow> 'v"

text \<open>
  Modelled from the spec: \<^verbatim>\<open>vertex.oplus(delta)\<close>, not among the sources; it updates the
  estimate in place and changes nothing else.
\<close>

definition oplus :: "'v vertex \<Rightarrow> real list \<Rightarrow> 'v vertex" where
  "oplus v delta = v\<lparr>estimate := oplus_fn v (estimate v) delta\<rparr>"

text \<open>
  Modelled from the spec: the two vertices an edge binds, ordered \<open>i\<close> and \<open>j\<close>. The edge
  refers to them and does not own them, so they are the mutable state of an evaluation.
  Slot 0 addresses vertex \<open>i\<close> and slot 1 vertex \<open>j\<close>.
\<close>

record 'v endpoints =
  v_i :: "'v vertex"
  v_j :: "'v vertex"

definition get_vertex :: "'v endpoints \<Rightarrow> nat \<Rightarrow> 'v vertex" where
  "get_vertex vs slot = (if slot = 0 then v_i vs else v_j vs)"

definition set_vertex :: "'v endpoints \<Rightarrow> nat \<Rightarrow> 'v vertex \<Rightarrow> 'v endpoints" where
  "set_vertex vs slot v = (if slot = 0 then vs\<lparr>v_i := v\<rparr> else vs\<lparr>v_j := v\<rparr>)"

text \<open>
  Modelled from the spec: the edge (measurement entity), whose classes are not among the
  sources. It owns a measurement, has the error dimension \<open>D_e\<close> and the error function
  \<open>e(v_i, v_j, z)\<close>, and can supply a closed-form Jacobian: the two blocks for vertex \<open>i\<close> and
  vertex \<open>j\<close>. The information matrix is left out, since evaluation does not read it.
\<close>

record ('v, 'z) edge =
  measurement :: 'z
  dim_e :: nat
  error_fn :: "'v \<Rightarrow> 'v \<Rightarrow> 'z \<Rightarrow> real list"
  closed_form :: "('v \<Rightarrow> 'v \<Rightarrow> 'z \<Rightarrow> real list \<times> real list) option"

text \<open>
  Modelled from the spec: the Jacobian workspace, whose class is not among the sources: a
  set of buffers, one for each vertex slot, each with room for the largest block.
\<close>

record workspace =
  maxNumVertices :: nat
  maxDimension :: nat
  storage :: "real list list"

text \<open>
  Modelled from the spec: \<^verbatim>\<open>workspace.updateSize(edge)\<close>, not among the sources; it
  recomputes the required sizes from the dimensions of the edge and of its vertices and
  keeps the maximum.
\<close>

definition updateSize :: "workspace \<Rightarrow> ('v, 'z) edge \<Rightarrow> 'v endpoints \<Rightarrow> workspace" where
  "updateSize ws E vs =
     ws\<lparr>maxNumVertices := max (maxNumVertices ws) 2,
        maxDimension := max (maxDimension ws)
          (max (dim_e E * dimension (v_i vs)) (dim_e E * dimension (v_j vs)))\<rparr>"

text \<open>
  Modelled from the spec: \<^verbatim>\<open>workspace.allocate()\<close>, not among the sources; it commits
  backing storage for the sizes computed by \<open>updateSize\<close>.
\<close>

definition allocate :: "workspace \<Rightarrow> workspace" where
  "allocate ws =
     ws\<lparr>storage := replicate (maxNumVertices ws) (replicate (maxDimension ws) 0)\<rparr>"

text \<open>
  The block that a caller reads for a slot after an evaluation: the first \<open>numElems\<close>
  scalars of the buffer of that slot, as in the comparison loop of
  \<^verbatim>\<open>evaluateJacobian\<close> in the unit test, where \<open>numElems\<close> is the error dimension times
  the dimension of the vertex.
\<close>

definition blockFor :: "workspace \<Rightarrow> nat \<Rightarrow> nat \<Rightarrow> real list" where
  "blockFor ws slot numElems = take numElems (storage ws ! slot)"

text \<open>
  Modelled from the spec: writing into the workspace, with the bounds-checked slot lookup
  of the design notes. \<open>write_at\<close> overwrites a buffer from an offset on, \<open>write_column\<close>
  fills column \<open>c\<close> of the block of a slot (blocks are stored column by column), and
  \<open>write_block\<close> fills a whole block.
\<close>

definition write_at :: "real list \<Rightarrow> nat \<Rightarrow> real list \<Rightarrow> real list" where
  "write_at buf off xs = take off buf @ xs @ drop (off + length xs) buf"

definition write_column :: "workspace \<Rightarrow> nat \<Rightarrow> nat \<Rightarrow> real list \<Rightarrow> eval_error + workspace" where
  "write_column ws slot c col =
     (if slot < length (storage ws) \<and> (c + 1) * length col \<le> length (storage ws ! slot)
      then Inr (ws\<lparr>storage :=
                  (storage ws)[slot := write_at (storage ws ! slot) (c * length col) col]\<rparr>)
      else Inl WorkspaceNotAllocated)"

definition write_block :: "workspace \<Rightarrow> nat \<Rightarrow> real list \<Rightarrow> eval_error + workspace" where
  "write_block ws slot blk =
     (if slot < length (storage ws) \<and> length blk \<le> length (storage ws ! slot)
      then Inr (ws\<lparr>storage := (storage ws)[slot := write_at (storage ws ! slot) 0 blk]\<rparr>)
      else Inl WorkspaceNotAllocated)"

text \<open>
  Modelled from the spec: the evaluation of the error function \<open>e(v_i, v_j, z)\<close> at the
  current estimates, not among the sources. An error vector whose length is not \<open>D_e\<close> is a
  dimension mismatch.
\<close>

definition computeError :: "('v, 'z) edge \<Rightarrow> 'v endpoints \<Rightarrow> eval_error + real list" where
  "computeError E vs =
     (let e = error_fn E (estimate (v_i vs)) (estimate (v_j vs)) (measurement E)
      in if length e = dim_e E then Inr e else Inl DimensionMismatch)"

text \<open>
  Modelled from the spec: the tangent vector of length \<open>D\<close> that is \<open>eps\<close> along basis
  vector \<open>c\<close> and zero elsewhere.
\<close>

definition basis :: "nat \<Rightarrow> nat \<Rightarrow> real \<Rightarrow> real list" where
  "basis D c eps = (replicate D 0)[c := eps]"

text \<open>
  Modelled from the spec: the scoped perturb-then-restore discipline of section 5. The
  vertex of the slot is saved, perturbed through oplus, the error is evaluated, and the
  vertex is restored before control returns, also when the evaluation of the error fails.
\<close>

definition perturbed_error ::
  "('v, 'z) edge \<Rightarrow> nat \<Rightarrow> real list \<Rightarrow> 'v endpoints
     \<Rightarrow> (eval_error + real list) \<times> 'v endpoints" where
  "perturbed_error E slot delta vs =
     (let saved = get_vertex vs slot;
          vs = set_vertex vs slot (oplus saved delta);
          r = computeError E vs;
          vs = set_vertex vs slot saved
      in (r, vs))"

text \<open>
  Modelled from the spec: the central difference \<open>(e(+) - e(-)) / (2 * epsilon)\<close>, entry by
  entry.
\<close>

definition central_difference :: "real \<Rightarrow> real list \<Rightarrow> real list \<Rightarrow> real list" where
  "central_difference eps ep em = map2 (\<lambda>a b. (a - b) / (2 * eps)) ep em"

text \<open>
  Modelled from the spec: one tangent coordinate \<open>c\<close> of \<open>evaluateNumeric\<close>: perturb the
  vertex by \<open>+epsilon\<close> along basis vector \<open>c\<close>, evaluate the error, perturb by
  \<open>-epsilon\<close>, evaluate again, and form the central difference.
\<close>

definition numeric_column ::
  "('v, 'z) edge \<Rightarrow> real \<Rightarrow> nat \<Rightarrow> nat \<Rightarrow> 'v endpoints
     \<Rightarrow> (eval_error + real list) \<times> 'v endpoints" where
  "numeric_column E eps slot c vs =
     (let D = dimension (get_vertex vs slot);
          (rp, vs) = perturbed_error E slot (basis D c eps) vs
      in case rp of
           Inl err \<Rightarrow> (Inl err, vs)
         | Inr ep \<Rightarrow>
             (let (rm, vs) = perturbed_error E slot (basis D c (- eps)) vs
              in case rm of
                   Inl err \<Rightarrow> (Inl err, vs)
                 | Inr em \<Rightarrow> (Inr (central_difference eps ep em), vs)))"

text \<open>
  Modelled from the spec: the loop of \<open>evaluateNumeric\<close> over the tangent coordinates of
  one vertex; each column is written into the block of the slot. The loop stops at the
  first error.
\<close>

fun numeric_block ::
  "('v, 'z) edge \<Rightarrow> real \<Rightarrow> nat \<Rightarrow> nat list \<Rightarrow> 'v endpoints \<times> workspace
     \<Rightarrow> eval_error \<times> 'v endpoints \<times> workspace + 'v endpoints \<times> workspace" where
  "numeric_block E eps slot [] st = Inr st"
| "numeric_block E eps slot (c # cs) (vs, ws) =
     (case numeric_column E eps slot c vs of
        (Inl err, vs) \<Rightarrow> Inl (err, vs, ws)
      | (Inr col, vs) \<Rightarrow>
          (case write_column ws slot c col of
             Inl err \<Rightarrow> Inl (err, vs, ws)
           | Inr ws \<Rightarrow> numeric_block E eps slot cs (vs, ws)))"

text \<open>
  Modelled from the spec: \<^verbatim>\<open>evaluateNumeric(edge, workspace, epsilon)\<close>, the numeric
  \<^verbatim>\<open>linearizeOplus\<close> that is not among the sources: for each vertex in \<open>{i, j}\<close> and each
  tangent coordinate in \<open>[0, D_v)\<close>, one central-difference column.
\<close>

definition evaluateNumeric ::
  "('v, 'z) edge \<Rightarrow> workspace \<Rightarrow> real \<Rightarrow> 'v endpoints
     \<Rightarrow> eval_error \<times> 'v endpoints \<times> workspace + 'v endpoints \<times> workspace" where
  "evaluateNumeric E ws eps vs =
     (case numeric_block E eps 0 [0..<dimension (v_i vs)] (vs, ws) of
        Inl failure \<Rightarrow> Inl failure
      | Inr (vs, ws) \<Rightarrow> numeric_block E eps 1 [0..<dimension (v_j vs)] (vs, ws))"

text \<open>
  Modelled from the spec: \<^verbatim>\<open>evaluateAnalytic(edge, workspace)\<close>, the analytic
  \<^verbatim>\<open>linearizeOplus\<close> that is not among the sources: it invokes the closed-form
  derivative of the edge and writes the two blocks at the slots of vertex \<open>i\<close> and vertex
  \<open>j\<close>.
\<close>

definition evaluateAnalytic ::
  "('v \<Rightarrow> 'v \<Rightarrow> 'z \<Rightarrow> real list \<times> real list) \<Rightarrow> ('v, 'z) edge \<Rightarrow> workspace \<Rightarrow> 'v endpoints
     \<Rightarrow> eval_error \<times> 'v endpoints \<times> workspace + 'v endpoints \<times> workspace" where
  "evaluateAnalytic J E ws vs =
     (let (Ji, Jj) = J (estimate (v_i vs)) (estimate (v_j vs)) (measurement E)
      in if length Ji \<noteq> dim_e E * dimension (v_i vs)
            \<or> length Jj \<noteq> dim_e E * dimension (v_j vs)
         then Inl (DimensionMismatch, vs, ws)
         else (case write_block ws 0 Ji of
                 Inl err \<Rightarrow> Inl (err, vs, ws)
               | Inr ws \<Rightarrow>
                   (case write_block ws 1 Jj of
                      Inl err \<Rightarrow> Inl (err, vs, ws)
                    | Inr ws \<Rightarrow> Inr (vs, ws))))"

text \<open>
  Modelled from the spec: \<^verbatim>\<open>dispatcher.evaluate(edge, workspace)\<close>, not among the
  sources: the Jacobian blocks are produced by the closed form of the edge when it supplies
  one, and by central finite differences otherwise.
\<close>

definition evaluate ::
  "('v, 'z) edge \<Rightarrow> workspace \<Rightarrow> real \<Rightarrow> 'v endpoints
     \<Rightarrow> eval_error \<times> 'v endpoints \<times> workspace + 'v endpoints \<times> workspace" where
  "evaluate E ws eps vs =
     (case closed_form E of
        Some J \<Rightarrow> evaluateAnalytic J E ws vs
      | None \<Rightarrow> evaluateNumeric E ws eps vs)"

text \<open>
  Modelled from the spec: the invariant of the workspace, that it is sized for the
  dimensions of the edge before any evaluation: both slots exist and each has room for the
  block of its vertex.
\<close>

definition sized_for :: "workspace \<Rightarrow> ('v, 'z) edge \<Rightarrow> 'v endpoints \<Rightarrow> bool" where
  "sized_for ws E vs \<longleftrightarrow>
     2 \<le> length (storage ws)
     \<and> dim_e E * dimension (v_i vs) \<le> length (storage ws ! 0)
     \<and> dim_e E * dimension (v_j vs) \<le> length (storage ws ! 1)"

text \<open>
  Three notions used in the proofs: the column that \<open>numeric_column\<close> returns, the
  statement that it returns one, and the buffer after a sequence of columns has been
  written.
\<close>

definition column :: "('v, 'z) edge \<Rightarrow> real \<Rightarrow> nat \<Rightarrow> 'v endpoints \<Rightarrow> nat \<Rightarrow> real list" where
  "column E eps slot vs c =
     (case fst (numeric_column E eps slot c vs) of Inl err \<Rightarrow> [] | Inr col \<Rightarrow> col)"

definition column_ok :: "('v, 'z) edge \<Rightarrow> real \<Rightarrow> nat \<Rightarrow> 'v endpoints \<Rightarrow> nat \<Rightarrow> bool" where
  "column_ok E eps slot vs c \<longleftrightarrow>
     numeric_column E eps slot c vs = (Inr (column E eps slot vs c), vs)"

definition fill :: "(nat \<Rightarrow> real list) \<Rightarrow> nat \<Rightarrow> nat list \<Rightarrow> real list \<Rightarrow> real list" where
  "fill col De cs buf = foldl (\<lambda>b c. write_at b (c * De) (col c)) buf cs"

text \<open>
  Modelled from the spec: a point vertex, of dimension three, whose oplus is vector
  addition; and an edge between two points at which the theorems below are instantiated.
  Its error is the difference of the two estimates minus the measurement.
\<close>

definition point_vertex :: "int \<Rightarrow> real list \<Rightarrow> real list vertex" where
  "point_vertex n p =
     \<lparr>vid = n, estimate = p, dimension = 3, oplus_fn = (\<lambda>x delta. map2 (+) x delta)\<rparr>"

definition point_edge ::
  "real list \<Rightarrow> (real list \<Rightarrow> real list \<Rightarrow> real list \<Rightarrow> real list \<times> real list) option
     \<Rightarrow> (real list, real list) edge" where
  "point_edge z J =
     \<lparr>measurement = z, dim_e = 3,
      error_fn = (\<lambda>a b z. map2 (-) (map2 (-) b a) z),
      closed_form = J\<rparr>"

section \<open>Auxiliary facts about the functor\<close>

lemma negate_quaternion_3: "negate_quaternion [a, b, c] = [- a, - b, - c]"
  by (simp add: negate_quaternion_def upt_rec)

lemma length3_cases: "length q = 3 \<Longrightarrow> \<exists>a b c. q = [a, b, c]"
  by (cases q; cases "tl q"; cases "tl (tl q)") auto

lemma negate_quaternion_map: "length q = 3 \<Longrightarrow> negate_quaternion q = map uminus q"
  using length3_cases [of q] negate_quaternion_3 by auto

lemma select_i_cases:
  "(select_i m = 0 \<and> R_at m 1 1 \<le> R_at m 0 0 \<and> R_at m 2 2 \<le> R_at m 0 0)
   \<or> (select_i m = 1 \<and> R_at m 0 0 < R_at m 1 1 \<and> R_at m 2 2 \<le> R_at m 1 1)
   \<or> (select_i m = 2 \<and> R_at m 0 0 < R_at m 2 2 \<and> R_at m 1 1 < R_at m 2 2)"
  by (auto simp: select_i_def Let_def)

lemma select_i_running_max:
  "select_i m = running_max_index [R_at m 0 0, R_at m 1 1, R_at m 2 2]"
  by (simp add: select_i_def running_max_index_def Let_def upt_rec)

lemma select_i_less: "select_i m < 3"
  using select_i_cases [of m] by auto

lemma select_i_max: "l < 3 \<Longrightarrow> R_at m l l \<le> R_at m (select_i m) (select_i m)"
proof -
  assume "l < 3"
  then have "l = 0 \<or> l = 1 \<or> l = 2" by auto
  then show ?thesis using select_i_cases [of m] by auto
qed

lemma select_i_first: "l < select_i m \<Longrightarrow> R_at m l l < R_at m (select_i m) (select_i m)"
proof -
  assume a: "l < select_i m"
  then have "l = 0 \<or> l = 1" using select_i_less [of m] by auto
  then show ?thesis using a select_i_cases [of m] by auto
qed

lemma sqrt_arg_ge_1:
  assumes tr: "trace_R m \<le> 0" and i: "i = select_i m"
    and j: "j = (i + 1) mod 3" and k: "k = (j + 1) mod 3"
  shows "1 \<le> R_at m i i - R_at m j j - R_at m k k + 1"
proof -
  define a b c where "a = R_at m 0 0" and "b = R_at m 1 1" and "c = R_at m 2 2"
  have sum: "a + b + c \<le> 0"
    using tr by (simp add: trace_R_def a_def b_def c_def)
  consider (zero) "i = 0" "b \<le> a" "c \<le> a"
    | (one) "i = 1" "a < b" "c \<le> b"
    | (two) "i = 2" "a < c" "b < c"
    using select_i_cases [of m] i by (auto simp: a_def b_def c_def)
  then show ?thesis
  proof cases
    case zero
    then have "j = 1" "k = 2" using j k by simp_all
    then show ?thesis using zero sum by (simp add: a_def b_def c_def)
  next
    case one
    then have "j = 2" "k = 0" using j k by simp_all
    then show ?thesis using one sum by (simp add: a_def b_def c_def)
  next
    case two
    then have "j = 0" "k = 1" using j k by simp_all
    then show ?thesis using two sum by (simp add: a_def b_def c_def)
  qed
qed

lemma sqrt_T_ok: "0 \<le> x \<Longrightarrow> sqrt_T x = Inr (sqrt x)"
  by (simp add: sqrt_T_def)

lemma div_T_ok: "b \<noteq> 0 \<Longrightarrow> div_T a b = Inr (a / b)"
  by (simp add: div_T_def)

lemma then_branch_eq:
  assumes tr: "0 < trace_R m"
  shows "RotationMatrix2QuaternionManifold m quaternion =
           Inr (True, quaternion
             [0 := (R_at m 2 1 - R_at m 1 2) * (0.5 / sqrt (trace_R m + 1)),
              1 := (R_at m 0 2 - R_at m 2 0) * (0.5 / sqrt (trace_R m + 1)),
              2 := (R_at m 1 0 - R_at m 0 1) * (0.5 / sqrt (trace_R m + 1))])"
proof -
  have pos: "0 < sqrt (trace_R m + 1)" using tr by simp
  have s: "sqrt_T (trace_R m + 1) = Inr (sqrt (trace_R m + 1))"
    using tr by (simp add: sqrt_T_ok)
  have d: "div_T 0.5 (sqrt (trace_R m + 1)) = Inr (0.5 / sqrt (trace_R m + 1))"
    using pos by (simp add: div_T_ok)
  show ?thesis
    unfolding RotationMatrix2QuaternionManifold_def Let_def
    using tr s d by simp
qed

lemma else_branch_eq:
  assumes tr: "trace_R m \<le> 0" and len: "length quaternion = 3"
    and i: "i = select_i m" and j: "j = (i + 1) mod 3" and k: "k = (j + 1) mod 3"
    and s: "s = R_at m i i - R_at m j j - R_at m k k + 1"
    and w: "w = (R_at m k j - R_at m j k) * (0.5 / sqrt s)"
    and q: "q = quaternion[i := 0.5 * sqrt s,
                           j := (R_at m j i + R_at m i j) * (0.5 / sqrt s),
                           k := (R_at m k i + R_at m i k) * (0.5 / sqrt s)]"
  shows "RotationMatrix2QuaternionManifold m quaternion =
           Inr (True, if w < 0 then map uminus q else q)"
proof -
  have ge: "1 \<le> s" unfolding s using sqrt_arg_ge_1 [OF tr i j k] .
  then have pos: "0 < sqrt s" by simp
  have st: "sqrt_T s = Inr (sqrt s)" using ge by (simp add: sqrt_T_ok)
  have dt: "div_T 0.5 (sqrt s) = Inr (0.5 / sqrt s)" using pos by (simp add: div_T_ok)
  have lq: "length q = 3" using len q by simp
  have "RotationMatrix2QuaternionManifold m quaternion =
          Inr (True, if w < 0 then negate_quaternion q else q)"
    unfolding RotationMatrix2QuaternionManifold_def Let_def q w
    using tr st dt unfolding s k j i by simp
  then show ?thesis using negate_quaternion_map [OF lq] by simp
qed

lemma update_all_3:
  "length q = 3 \<Longrightarrow> i < 3 \<Longrightarrow> j = (i + 1) mod 3 \<Longrightarrow> k = (j + 1) mod 3 \<Longrightarrow>
     q[i := a, j := b, k := c] = [a, b, c][i := a, j := b, k := c]"
proof -
  assume len: "length q = 3" and i: "i < 3" and j: "j = (i + 1) mod 3" and k: "k = (j + 1) mod 3"
  obtain x y z where q: "q = [x, y, z]" using length3_cases [OF len] by blast
  from i consider "i = 0" | "i = 1" | "i = 2" by linarith
  then show ?thesis
  proof cases
    case 1 then show ?thesis using j k q by simp
  next
    case 2 then show ?thesis using j k q by simp
  next
    case 3 then show ?thesis using j k q by simp
  qed
qed

lemma sqrt_49_25: "sqrt (49 / 25) = 7 / 5"
  by (rule real_sqrt_unique) (simp_all add: power2_eq_square)

lemma sqrt_64_25: "sqrt (64 / 25) = 8 / 5"
  by (rule real_sqrt_unique) (simp_all add: power2_eq_square)

lemma dominant_component:
  assumes len: "length quaternion = 3" and i3: "i < 3"
    and j: "j = (i + 1) mod 3" and k: "k = (j + 1) mod 3"
    and q: "q = quaternion[i := a, j := b, k := c]"
  shows "length q = 3 \<and> q ! i = a"
proof -
  from i3 consider "i = 0" | "i = 1" | "i = 2" by linarith
  then show ?thesis using len j k q by cases simp_all
qed

lemmas eval_defs = is_rotation_def col_dot_def det_R_def trace_R_def R_at_def select_i_def

section \<open>The branch for a positive trace\<close>

text \<open>
  Claim C3. For every 3-by-3 matrix \<open>R\<close> with \<open>trace R > 0\<close> (in particular for
  every orthonormal rotation matrix with positive trace), the functor succeeds, returns
  \<open>true\<close>, and overwrites the three output components with the antisymmetric
  differences \<open>R(2,1) - R(1,2)\<close>, \<open>R(0,2) - R(2,0)\<close>, \<open>R(1,0) - R(0,1)\<close>, each
  multiplied by \<open>0.5 / sqrt (trace R + 1)\<close>. The theorem is instantiated at the rotation
  by a quarter turn about the third axis, whose trace is one.
\<close>

theorem positive_trace_imaginary_parts:
  assumes "length m = 9" and "length quaternion = 3" and "0 < trace_R m"
  shows "RotationMatrix2QuaternionManifold m quaternion =
           Inr (True, [(R_at m 2 1 - R_at m 1 2) * (0.5 / sqrt (trace_R m + 1)),
                       (R_at m 0 2 - R_at m 2 0) * (0.5 / sqrt (trace_R m + 1)),
                       (R_at m 1 0 - R_at m 0 1) * (0.5 / sqrt (trace_R m + 1))])"
proof -
  obtain x y z where "quaternion = [x, y, z]"
    using length3_cases [OF assms(2)] by blast
  then show ?thesis
    using then_branch_eq [OF assms(3), of quaternion] by simp
qed

theorem positive_trace_imaginary_parts_witness:
  "is_rotation [0, 1, 0, - 1, 0, 0, 0, 0, 1]
   \<and> 0 < trace_R [0, 1, 0, - 1, 0, 0, 0, 0, 1]
   \<and> RotationMatrix2QuaternionManifold [0, 1, 0, - 1, 0, 0, 0, 0, 1] [7, 8, 9] =
       Inr (True, [0, 0, 1 / sqrt 2])"
  using positive_trace_imaginary_parts [of "[0, 1, 0, - 1, 0, 0, 0, 0, 1]" "[7, 8, 9]"]
  by (simp add: is_rotation_def col_dot_def det_R_def trace_R_def R_at_def)

section \<open>The branch for a non-positive trace\<close>

text \<open>
  In the three theorems of this section \<open>i\<close>, \<open>j\<close>, \<open>k\<close> are the indices of the source,
  \<open>s\<close> is the argument of the square root, \<open>w\<close> is the local variable that holds the
  real part, and \<open>q\<close> is the output array after the three assignments and before the
  normalisation loop.
\<close>

text \<open>
  Claim C4. For every 3-by-3 matrix \<open>R\<close> with \<open>trace R \<le> 0\<close>, the selected index \<open>i\<close> is
  the index that a scan of the diagonal in the order 0, 1, 2 keeps when it moves only to an
  entry that strictly exceeds the running maximum: it is below three, its diagonal entry is
  the largest of the three, and every smaller index has a strictly smaller diagonal entry
  (on ties the smaller index wins); with
  \<open>j = (i+1) % 3\<close> and \<open>k = (j+1) % 3\<close> the three indices are distinct; component \<open>i\<close>
  is computed as \<open>0.5 * sqrt (R(i,i) - R(j,j) - R(k,k) + 1)\<close>, components \<open>j\<close> and \<open>k\<close>
  from the sums \<open>R(j,i) + R(i,j)\<close> and \<open>R(k,i) + R(i,k)\<close> scaled by
  \<open>0.5 / sqrt (R(i,i) - R(j,j) - R(k,k) + 1)\<close>, and the real part from
  \<open>R(k,j) - R(j,k)\<close> times the same scale; the functor returns \<open>true\<close> and these
  components, negated when the real part is negative. The theorem is instantiated at the
  rotation with unit quaternion \<open>(0.1; 0.5, 0.7, 0.5)\<close>, where \<open>i = 1\<close>.
\<close>

theorem nonpositive_trace_branch:
  assumes "length m = 9" and "length quaternion = 3" and "trace_R m \<le> 0"
    and "i = select_i m" and "j = (i + 1) mod 3" and "k = (j + 1) mod 3"
    and "s = R_at m i i - R_at m j j - R_at m k k + 1"
    and "w = (R_at m k j - R_at m j k) * (0.5 / sqrt s)"
    and "q = quaternion[i := 0.5 * sqrt s,
                        j := (R_at m j i + R_at m i j) * (0.5 / sqrt s),
                        k := (R_at m k i + R_at m i k) * (0.5 / sqrt s)]"
  shows "i = running_max_index [R_at m 0 0, R_at m 1 1, R_at m 2 2]
     \<and> i < 3
     \<and> (\<forall>l<3. R_at m l l \<le> R_at m i i)
     \<and> (\<forall>l<i. R_at m l l < R_at m i i)
     \<and> {i, j, k} = {0, 1, 2}
     \<and> RotationMatrix2QuaternionManifold m quaternion =
           Inr (True, if w < 0 then map uminus q else q)"
proof -
  have scan: "i = running_max_index [R_at m 0 0, R_at m 1 1, R_at m 2 2]"
    using assms(4) select_i_running_max by simp
  have i3: "i < 3" using assms(4) select_i_less by simp
  have mx: "\<forall>l<3. R_at m l l \<le> R_at m i i"
    using assms(4) select_i_max by simp
  have fst: "\<forall>l<i. R_at m l l < R_at m i i"
    using assms(4) select_i_first by simp
  from i3 consider "i = 0" | "i = 1" | "i = 2" by linarith
  then have ijk: "{i, j, k} = {0, 1, 2}"
    using assms(5,6) by cases auto
  have "RotationMatrix2QuaternionManifold m quaternion =
           Inr (True, if w < 0 then map uminus q else q)"
    using else_branch_eq [OF assms(3,2,4,5,6,7,8,9)] .
  then show ?thesis using scan i3 mx fst ijk by blast
qed

theorem nonpositive_trace_branch_witness:
  "is_rotation [- 12/25, 4/5, 9/25, 3/5, 0, 4/5, 16/25, 3/5, - 12/25]
   \<and> trace_R [- 12/25, 4/5, 9/25, 3/5, 0, 4/5, 16/25, 3/5, - 12/25] \<le> 0
   \<and> select_i [- 12/25, 4/5, 9/25, 3/5, 0, 4/5, 16/25, 3/5, - 12/25] = 1
   \<and> RotationMatrix2QuaternionManifold
        [- 12/25, 4/5, 9/25, 3/5, 0, 4/5, 16/25, 3/5, - 12/25] [7, 8, 9] =
       Inr (True, [1/2, 7/10, 1/2])"
  using nonpositive_trace_branch
    [of "[- 12/25, 4/5, 9/25, 3/5, 0, 4/5, 16/25, 3/5, - 12/25]" "[7, 8, 9]"
        1 2 0 "49/25" "1/10" "[1/2, 7/10, 1/2]"]
    sqrt_49_25
  by (simp add: eval_defs)

text \<open>
  Claim C5. In the branch for \<open>trace R \<le> 0\<close>, whenever the computed real part \<open>w\<close> is
  negative the functor returns all three components multiplied by \<open>-1\<close>; in every case
  the returned components are \<open>\<sigma> * q\<close> for a sign \<open>\<sigma>\<close> with \<open>\<sigma> * w \<ge> 0\<close>, that
  is, of the two antipodal quaternions \<open>(w, q)\<close> and \<open>(-w, -q)\<close> the one with a
  non-negative real part is returned. The theorem is instantiated at the rotation with unit
  quaternion \<open>(0.1; -0.5, -0.7, -0.5)\<close>, where \<open>w = -0.1\<close>.
\<close>

theorem negative_real_part_negates:
  assumes "length m = 9" and "length quaternion = 3" and "trace_R m \<le> 0"
    and "i = select_i m" and "j = (i + 1) mod 3" and "k = (j + 1) mod 3"
    and "s = R_at m i i - R_at m j j - R_at m k k + 1"
    and "w = (R_at m k j - R_at m j k) * (0.5 / sqrt s)"
    and "q = quaternion[i := 0.5 * sqrt s,
                        j := (R_at m j i + R_at m i j) * (0.5 / sqrt s),
                        k := (R_at m k i + R_at m i k) * (0.5 / sqrt s)]"
  shows "length q = 3
     \<and> (w < 0 \<longrightarrow> RotationMatrix2QuaternionManifold m quaternion =
                    Inr (True, map (\<lambda>x. x * (- 1)) q))
     \<and> (\<exists>\<sigma>. (\<sigma> = 1 \<or> \<sigma> = - 1)
            \<and> RotationMatrix2QuaternionManifold m quaternion =
                Inr (True, map (\<lambda>x. \<sigma> * x) q)
            \<and> 0 \<le> \<sigma> * w)"
proof -
  have res: "RotationMatrix2QuaternionManifold m quaternion =
           Inr (True, if w < 0 then map uminus q else q)"
    using else_branch_eq [OF assms(3,2,4,5,6,7,8,9)] .
  have len: "length q = 3" using assms(2,9) by simp
  have neg: "w < 0 \<longrightarrow> RotationMatrix2QuaternionManifold m quaternion =
                    Inr (True, map (\<lambda>x. x * (- 1)) q)"
    using res by simp
  have "\<exists>\<sigma>. (\<sigma> = 1 \<or> \<sigma> = - 1)
            \<and> RotationMatrix2QuaternionManifold m quaternion =
                Inr (True, map (\<lambda>x. \<sigma> * x) q)
            \<and> 0 \<le> \<sigma> * w"
  proof (cases "w < 0")
    case True
    then show ?thesis using res by (intro exI [of _ "- 1"]) simp
  next
    case False
    then show ?thesis using res by (intro exI [of _ 1]) simp
  qed
  then show ?thesis using len neg by blast
qed

theorem negative_real_part_negates_witness:
  "is_rotation [- 12/25, 3/5, 16/25, 4/5, 0, 3/5, 9/25, 4/5, - 12/25]
   \<and> trace_R [- 12/25, 3/5, 16/25, 4/5, 0, 3/5, 9/25, 4/5, - 12/25] \<le> 0
   \<and> (- 1/10 :: real) < 0
   \<and> RotationMatrix2QuaternionManifold
        [- 12/25, 3/5, 16/25, 4/5, 0, 3/5, 9/25, 4/5, - 12/25] [7, 8, 9] =
       Inr (True, [- 1/2, - 7/10, - 1/2])"
  using negative_real_part_negates
    [of "[- 12/25, 3/5, 16/25, 4/5, 0, 3/5, 9/25, 4/5, - 12/25]" "[7, 8, 9]"
        1 2 0 "49/25" "- 1/10" "[1/2, 7/10, 1/2]"]
    sqrt_49_25
  by (simp add: eval_defs)

text \<open>
  Claim C10. In the branch for \<open>trace R \<le> 0\<close>, when the computed real part \<open>w\<close> is
  exactly zero no negation is applied: the components are returned as computed. The
  comparison is strict: the unnegated components are returned exactly when \<open>w \<ge> 0\<close>, the
  negated ones exactly when \<open>w < 0\<close>. The theorem is instantiated at the half turn
  about the axis \<open>(0.6, 0.8, 0)\<close>, where \<open>w = 0\<close>.
\<close>

theorem zero_real_part_not_negated:
  assumes "length m = 9" and "length quaternion = 3" and "trace_R m \<le> 0"
    and "i = select_i m" and "j = (i + 1) mod 3" and "k = (j + 1) mod 3"
    and "s = R_at m i i - R_at m j j - R_at m k k + 1"
    and "w = (R_at m k j - R_at m j k) * (0.5 / sqrt s)"
    and "q = quaternion[i := 0.5 * sqrt s,
                        j := (R_at m j i + R_at m i j) * (0.5 / sqrt s),
                        k := (R_at m k i + R_at m i k) * (0.5 / sqrt s)]"
  shows "(w = 0 \<longrightarrow> RotationMatrix2QuaternionManifold m quaternion = Inr (True, q))
     \<and> (RotationMatrix2QuaternionManifold m quaternion = Inr (True, q) \<longleftrightarrow> 0 \<le> w)
     \<and> (RotationMatrix2QuaternionManifold m quaternion = Inr (True, map uminus q)
          \<longleftrightarrow> w < 0)"
proof -
  have res: "RotationMatrix2QuaternionManifold m quaternion =
           Inr (True, if w < 0 then map uminus q else q)"
    using else_branch_eq [OF assms(3,2,4,5,6,7,8,9)] .
  have i3: "i < 3" using assms(4) select_i_less by simp
  have "1 \<le> s" unfolding assms(7) using sqrt_arg_ge_1 [OF assms(3,4,5,6)] .
  then have pos: "0 < 0.5 * sqrt s" by simp
  have dom: "length q = 3 \<and> q ! i = 0.5 * sqrt s"
    using dominant_component [OF assms(2) i3 assms(5,6,9)] .
  have "map uminus q ! i = - (0.5 * sqrt s)"
    using dom i3 by simp
  then have "map uminus q ! i \<noteq> q ! i" using dom pos by linarith
  then have ne: "map uminus q \<noteq> q" by metis
  show ?thesis using res ne by auto
qed

theorem zero_real_part_not_negated_witness:
  "is_rotation [- 7/25, 24/25, 0, 24/25, 7/25, 0, 0, 0, - 1]
   \<and> trace_R [- 7/25, 24/25, 0, 24/25, 7/25, 0, 0, 0, - 1] \<le> 0
   \<and> RotationMatrix2QuaternionManifold
        [- 7/25, 24/25, 0, 24/25, 7/25, 0, 0, 0, - 1] [7, 8, 9] =
       Inr (True, [3/5, 4/5, 0])"
  using zero_real_part_not_negated
    [of "[- 7/25, 24/25, 0, 24/25, 7/25, 0, 0, 0, - 1]" "[7, 8, 9]"
        1 2 0 "64/25" 0 "[3/5, 4/5, 0]"]
    sqrt_64_25
  by (simp add: eval_defs)

section \<open>Totality\<close>

text \<open>
  Claim C9. For every 3-by-3 matrix \<open>R\<close> with \<open>trace R \<le> 0\<close> (in particular for every
  orthonormal rotation matrix with such a trace), the selected index makes the argument
  \<open>R(i,i) - R(j,j) - R(k,k) + 1\<close> of the square root strictly positive, the square root is
  positive, and neither the square root nor the division \<open>0.5 / t\<close> leaves the real
  numbers. On every 3-by-3 matrix the functor returns \<open>true\<close> and three components that
  do not depend on the previous contents of the output array: all three are written. The
  theorem is instantiated at the rotation that permutes the axes cyclically, whose trace is
  zero and whose diagonal entries are equal.
\<close>

theorem functor_total:
  assumes "length m = 9"
    and "i = select_i m" and "j = (i + 1) mod 3" and "k = (j + 1) mod 3"
    and "s = R_at m i i - R_at m j j - R_at m k k + 1"
  shows "(trace_R m \<le> 0 \<longrightarrow>
            0 < s \<and> 0 < sqrt s
            \<and> sqrt_T s = Inr (sqrt s)
            \<and> div_T 0.5 (sqrt s) = Inr (0.5 / sqrt s))
     \<and> (\<exists>a b c. \<forall>quaternion. length quaternion = 3 \<longrightarrow>
            RotationMatrix2QuaternionManifold m quaternion = Inr (True, [a, b, c]))"
proof -
  have i3: "i < 3" using assms(2) select_i_less by simp
  have A: "0 < s \<and> 0 < sqrt s \<and> sqrt_T s = Inr (sqrt s)
        \<and> div_T 0.5 (sqrt s) = Inr (0.5 / sqrt s)" if tr: "trace_R m \<le> 0"
  proof -
    have "1 \<le> s" unfolding assms(5) using sqrt_arg_ge_1 [OF tr assms(2,3,4)] .
    then have "0 < s" "0 < sqrt s" by simp_all
    then show ?thesis by (simp add: sqrt_T_ok div_T_ok)
  qed
  have B: "\<exists>a b c. \<forall>quaternion. length quaternion = 3 \<longrightarrow>
            RotationMatrix2QuaternionManifold m quaternion = Inr (True, [a, b, c])"
  proof (cases "0 < trace_R m")
    case True
    have "\<forall>quaternion. length quaternion = 3 \<longrightarrow>
            RotationMatrix2QuaternionManifold m quaternion =
            Inr (True, [0, 0, 0]
             [0 := (R_at m 2 1 - R_at m 1 2) * (0.5 / sqrt (trace_R m + 1)),
              1 := (R_at m 0 2 - R_at m 2 0) * (0.5 / sqrt (trace_R m + 1)),
              2 := (R_at m 1 0 - R_at m 0 1) * (0.5 / sqrt (trace_R m + 1))])"
    proof (intro allI impI)
      fix quaternion :: "real list"
      assume "length quaternion = 3"
      then obtain x y z where "quaternion = [x, y, z]"
        using length3_cases by blast
      then show "RotationMatrix2QuaternionManifold m quaternion =
            Inr (True, [0, 0, 0]
             [0 := (R_at m 2 1 - R_at m 1 2) * (0.5 / sqrt (trace_R m + 1)),
              1 := (R_at m 0 2 - R_at m 2 0) * (0.5 / sqrt (trace_R m + 1)),
              2 := (R_at m 1 0 - R_at m 0 1) * (0.5 / sqrt (trace_R m + 1))])"
        using then_branch_eq [OF True, of quaternion] by simp
    qed
    then show ?thesis by simp
  next
    case False
    then have tr: "trace_R m \<le> 0" by simp
    define w where "w = (R_at m k j - R_at m j k) * (0.5 / sqrt s)"
    define q where "q = [0, 0, 0][i := 0.5 * sqrt s,
                        j := (R_at m j i + R_at m i j) * (0.5 / sqrt s),
                        k := (R_at m k i + R_at m i k) * (0.5 / sqrt s)]"
    have "length q = length [0::real, 0, 0]"
      unfolding q_def by (simp only: length_list_update)
    then have lq: "length (if w < 0 then map uminus q else q) = 3"
      by simp
    obtain a b c where abc: "(if w < 0 then map uminus q else q) = [a, b, c]"
      using length3_cases [OF lq] by blast
    have "\<forall>quaternion. length quaternion = 3 \<longrightarrow>
            RotationMatrix2QuaternionManifold m quaternion = Inr (True, [a, b, c])"
    proof (intro allI impI)
      fix quaternion :: "real list"
      assume len: "length quaternion = 3"
      have qq: "q = quaternion[i := 0.5 * sqrt s,
                        j := (R_at m j i + R_at m i j) * (0.5 / sqrt s),
                        k := (R_at m k i + R_at m i k) * (0.5 / sqrt s)]"
        unfolding q_def
        using update_all_3 [OF len i3 assms(3,4)]
          update_all_3 [of "[0, 0, 0]", OF _ i3 assms(3,4)] by simp
      have "RotationMatrix2QuaternionManifold m quaternion =
              Inr (True, if w < 0 then map uminus q else q)"
        using else_branch_eq [OF tr len assms(2,3,4,5) w_def qq] .
      then show "RotationMatrix2QuaternionManifold m quaternion = Inr (True, [a, b, c])"
        unfolding abc .
    qed
    then show ?thesis by blast
  qed
  show ?thesis using A B by blast
qed

theorem functor_total_witness:
  "is_rotation [0, 0, 1, 1, 0, 0, 0, 1, 0]
   \<and> trace_R [0, 0, 1, 1, 0, 0, 0, 1, 0] \<le> 0
   \<and> select_i [0, 0, 1, 1, 0, 0, 0, 1, 0] = 0
   \<and> sqrt_T 1 = Inr 1 \<and> div_T 0.5 1 = Inr 0.5
   \<and> (\<exists>a b c. \<forall>quaternion. length quaternion = 3 \<longrightarrow>
         RotationMatrix2QuaternionManifold [0, 0, 1, 1, 0, 0, 0, 1, 0] quaternion =
         Inr (True, [a, b, c]))
   \<and> RotationMatrix2QuaternionManifold [0, 0, 1, 1, 0, 0, 0, 1, 0] [7, 8, 9] =
         Inr (True, [- 1/2, - 1/2, - 1/2])"
  using functor_total [of "[0, 0, 1, 1, 0, 0, 0, 1, 0]" 0 1 2 1]
  by (simp add: eval_defs RotationMatrix2QuaternionManifold_def sqrt_T_def div_T_def
        negate_quaternion_3)

section \<open>Auxiliary facts about the dispatcher\<close>

subsection \<open>Perturbation and restoration\<close>

lemma set_vertex_restore:
  "set_vertex (set_vertex vs slot x) slot (get_vertex vs slot) = vs"
  by (simp add: set_vertex_def get_vertex_def)

lemma perturbed_error_eq:
  "perturbed_error E slot delta vs =
     (computeError E (set_vertex vs slot (oplus (get_vertex vs slot) delta)), vs)"
  by (simp add: perturbed_error_def Let_def set_vertex_restore)

lemma numeric_column_frame: "snd (numeric_column E eps slot c vs) = vs"
  by (simp add: numeric_column_def perturbed_error_eq Let_def split: sum.splits)

lemma computeError_Inr:
  "computeError E vs = Inr e \<Longrightarrow>
     e = error_fn E (estimate (v_i vs)) (estimate (v_j vs)) (measurement E) \<and> length e = dim_e E"
  by (auto simp: computeError_def Let_def split: if_splits)

lemma computeError_length: "computeError E vs = Inr e \<Longrightarrow> length e = dim_e E"
  using computeError_Inr by blast

lemma computeError_value:
  "computeError E vs = Inr e \<Longrightarrow>
     e = error_fn E (estimate (v_i vs)) (estimate (v_j vs)) (measurement E)"
  using computeError_Inr by blast

lemma numeric_column_Inr:
  assumes "fst (numeric_column E eps slot c vs) = Inr col"
  shows "\<exists>ep em.
      computeError E (set_vertex vs slot
         (oplus (get_vertex vs slot) (basis (dimension (get_vertex vs slot)) c eps))) = Inr ep
    \<and> computeError E (set_vertex vs slot
         (oplus (get_vertex vs slot) (basis (dimension (get_vertex vs slot)) c (- eps)))) = Inr em
    \<and> col = central_difference eps ep em"
  using assms
  by (auto simp: numeric_column_def perturbed_error_eq Let_def split: sum.splits)

lemma central_difference_nth:
  "length ep = n \<Longrightarrow> length em = n \<Longrightarrow> r < n \<Longrightarrow>
     length (central_difference eps ep em) = n
     \<and> central_difference eps ep em ! r = (ep ! r - em ! r) / (2 * eps)"
  by (simp add: central_difference_def)

lemma numeric_column_length:
  assumes "fst (numeric_column E eps slot c vs) = Inr col"
  shows "length col = dim_e E"
proof -
  obtain ep em where ep: "computeError E (set_vertex vs slot
         (oplus (get_vertex vs slot) (basis (dimension (get_vertex vs slot)) c eps))) = Inr ep"
    and em: "computeError E (set_vertex vs slot
         (oplus (get_vertex vs slot) (basis (dimension (get_vertex vs slot)) c (- eps)))) = Inr em"
    and col: "col = central_difference eps ep em"
    using numeric_column_Inr [OF assms] by blast
  have "length ep = dim_e E" and "length em = dim_e E"
    by (rule computeError_length [OF ep], rule computeError_length [OF em])
  then show ?thesis by (simp add: col central_difference_def)
qed

lemma numeric_column_cases:
  "numeric_column E eps slot c vs = (Inr (column E eps slot vs c), vs)
   \<or> (\<exists>err. numeric_column E eps slot c vs = (Inl err, vs))"
  using numeric_column_frame [of E eps slot c vs]
  by (cases "numeric_column E eps slot c vs"; cases "fst (numeric_column E eps slot c vs)")
     (auto simp: column_def)

lemma numeric_block_frame:
  "(case numeric_block E eps slot cs (vs, ws) of
      Inl (err, vs', ws') \<Rightarrow> vs' = vs
    | Inr (vs', ws') \<Rightarrow> vs' = vs)"
proof (induction cs arbitrary: ws)
  case Nil
  show ?case by simp
next
  case (Cons c cs)
  from numeric_column_cases [of E eps slot c vs] show ?case
  proof
    assume ok: "numeric_column E eps slot c vs = (Inr (column E eps slot vs c), vs)"
    show ?thesis
    proof (cases "write_column ws slot c (column E eps slot vs c)")
      case (Inl err)
      then show ?thesis using ok by simp
    next
      case (Inr ws2)
      then show ?thesis using ok Cons.IH [of ws2] by simp
    qed
  next
    assume "\<exists>err. numeric_column E eps slot c vs = (Inl err, vs)"
    then show ?thesis by auto
  qed
qed

subsection \<open>Writing columns into a buffer\<close>

lemma length_write_at:
  "off + length xs \<le> length buf \<Longrightarrow> length (write_at buf off xs) = length buf"
  by (simp add: write_at_def)

lemma take_write_at:
  "off + length xs \<le> length buf \<Longrightarrow>
     take (off + length xs) (write_at buf off xs) = take off buf @ xs"
  by (simp add: write_at_def)

lemma fill_Nil: "fill col De [] buf = buf"
  by (simp add: fill_def)

lemma fill_Cons: "fill col De (c # cs) buf = fill col De cs (write_at buf (c * De) (col c))"
  by (simp add: fill_def)

lemma fill_snoc: "fill col De (cs @ [c]) buf = write_at (fill col De cs buf) (c * De) (col c)"
  by (simp add: fill_def)

lemma length_fill:
  "(\<forall>c\<in>set cs. length (col c) = De \<and> (c + 1) * De \<le> length buf) \<Longrightarrow>
     length (fill col De cs buf) = length buf"
proof (induction cs arbitrary: buf)
  case Nil
  show ?case by (simp add: fill_Nil)
next
  case (Cons c cs)
  have c: "length (col c) = De" "(c + 1) * De \<le> length buf" using Cons.prems by simp_all
  then have len: "length (write_at buf (c * De) (col c)) = length buf"
    by (simp add: length_write_at)
  have "length (fill col De cs (write_at buf (c * De) (col c))) =
          length (write_at buf (c * De) (col c))"
    by (rule Cons.IH) (use Cons.prems len in simp)
  then show ?case by (simp add: fill_Cons len)
qed

lemma column_end_le: "c < D \<Longrightarrow> (c + 1) * De \<le> D * (De::nat)"
proof -
  assume "c < D"
  then have "c + 1 \<le> D" by simp
  then show ?thesis by (rule mult_le_mono1)
qed

lemma length_concat_columns:
  "(\<forall>c<D. length (col c) = De) \<Longrightarrow> length (concat (map col [0..<D])) = D * De"
  by (induction D) simp_all

lemma take_fill:
  "(\<forall>c<D. length (col c) = De) \<Longrightarrow> D * De \<le> length buf \<Longrightarrow>
     take (D * De) (fill col De [0..<D] buf) = concat (map col [0..<D])"
proof (induction D)
  case 0
  show ?case by simp
next
  case (Suc D)
  let ?b = "fill col De [0..<D] buf"
  have cols: "\<forall>c<D. length (col c) = De" using Suc.prems by simp
  have lenD: "length (col D) = De" using Suc.prems by simp
  have le: "D * De \<le> length buf" using Suc.prems by simp
  have "\<forall>c\<in>set [0..<D]. length (col c) = De \<and> (c + 1) * De \<le> length buf"
  proof
    fix c assume "c \<in> set [0..<D]"
    then have "c < D" by simp
    then have "(c + 1) * De \<le> D * De" by (rule column_end_le)
    then show "length (col c) = De \<and> (c + 1) * De \<le> length buf"
      using cols \<open>c < D\<close> le by simp
  qed
  then have lb: "length ?b = length buf" by (rule length_fill)
  have IH: "take (D * De) ?b = concat (map col [0..<D])"
    using Suc.IH [OF cols le] .
  have fit: "D * De + length (col D) \<le> length ?b"
    using Suc.prems lenD lb by simp
  have "take (Suc D * De) (fill col De [0..<Suc D] buf) =
          take (D * De + length (col D)) (write_at ?b (D * De) (col D))"
    by (simp add: fill_snoc lenD add.commute)
  also have "\<dots> = take (D * De) ?b @ col D"
    by (rule take_write_at [OF fit])
  also have "\<dots> = concat (map col [0..<Suc D])"
    by (simp add: IH)
  finally show ?case .
qed

lemma nth_concat_columns:
  "(\<forall>c<D. length (col c) = De) \<Longrightarrow> c < D \<Longrightarrow> r < De \<Longrightarrow>
     concat (map col [0..<D]) ! (c * De + r) = col c ! r"
proof (induction D)
  case 0
  then show ?case by simp
next
  case (Suc D)
  have cols: "\<forall>c<D. length (col c) = De" using Suc.prems by simp
  have len: "length (concat (map col [0..<D])) = D * De"
    using length_concat_columns [OF cols] .
  show ?case
  proof (cases "c < D")
    case True
    then have "(c + 1) * De \<le> D * De" by (rule column_end_le)
    then have "c * De + r < D * De" using Suc.prems(3) by simp
    then show ?thesis
      using Suc.IH [OF cols True Suc.prems(3)] len by (simp add: nth_append)
  next
    case False
    then have "c = D" using Suc.prems(2) by simp
    then show ?thesis using len by (simp add: nth_append)
  qed
qed

subsection \<open>The loop over the tangent coordinates\<close>

lemma write_column_Inr:
  assumes "write_column ws slot c col = Inr ws2"
  shows "slot < length (storage ws) \<and> (c + 1) * length col \<le> length (storage ws ! slot)
     \<and> ws2 = ws\<lparr>storage := (storage ws)[slot := write_at (storage ws ! slot) (c * length col) col]\<rparr>"
  using assms by (auto simp: write_column_def split: if_splits)

lemma write_column_ok:
  "slot < length (storage ws) \<Longrightarrow> (c + 1) * length col \<le> length (storage ws ! slot) \<Longrightarrow>
     write_column ws slot c col =
       Inr (ws\<lparr>storage := (storage ws)[slot := write_at (storage ws ! slot) (c * length col) col]\<rparr>)"
  by (simp add: write_column_def)

lemma column_ok_length: "column_ok E eps slot vs c \<Longrightarrow> length (column E eps slot vs c) = dim_e E"
  by (rule numeric_column_length [of E eps slot c vs]) (simp add: column_ok_def)

lemma numeric_block_ok:
  assumes "\<forall>c\<in>set cs. column_ok E eps slot vs c"
    and "slot < length (storage ws)"
    and "\<forall>c\<in>set cs. (c + 1) * dim_e E \<le> length (storage ws ! slot)"
  shows "numeric_block E eps slot cs (vs, ws) =
     Inr (vs, ws\<lparr>storage := (storage ws)
            [slot := fill (column E eps slot vs) (dim_e E) cs (storage ws ! slot)]\<rparr>)"
  using assms
proof (induction cs arbitrary: ws)
  case Nil
  show ?case by (simp add: fill_Nil)
next
  case (Cons c cs)
  let ?col = "column E eps slot vs c"
  let ?buf = "write_at (storage ws ! slot) (c * dim_e E) ?col"
  let ?ws2 = "ws\<lparr>storage := (storage ws)[slot := ?buf]\<rparr>"
  have ok: "numeric_column E eps slot c vs = (Inr ?col, vs)"
    using Cons.prems(1) by (simp add: column_ok_def)
  have len: "length ?col = dim_e E"
    using Cons.prems(1) by (simp add: column_ok_length)
  have fit: "(c + 1) * dim_e E \<le> length (storage ws ! slot)"
    using Cons.prems(3) by simp
  have wr: "write_column ws slot c ?col = Inr ?ws2"
    using write_column_ok [of slot ws c ?col] Cons.prems(2) fit len by simp
  have lbuf: "length ?buf = length (storage ws ! slot)"
    using fit len by (simp add: length_write_at)
  have nth2: "storage ?ws2 ! slot = ?buf" using Cons.prems(2) by simp
  have "numeric_block E eps slot cs (vs, ?ws2) =
     Inr (vs, ?ws2\<lparr>storage := (storage ?ws2)
            [slot := fill (column E eps slot vs) (dim_e E) cs (storage ?ws2 ! slot)]\<rparr>)"
  proof (rule Cons.IH)
    show "\<forall>c\<in>set cs. column_ok E eps slot vs c" using Cons.prems(1) by simp
    show "slot < length (storage ?ws2)" using Cons.prems(2) by simp
    show "\<forall>c\<in>set cs. (c + 1) * dim_e E \<le> length (storage ?ws2 ! slot)"
      using Cons.prems(3) lbuf nth2 by simp
  qed
  then show ?case
    using ok wr nth2 by (simp add: fill_Cons)
qed

lemma numeric_block_Inr:
  assumes "numeric_block E eps slot cs (vs, ws) = Inr (vs', ws')"
  shows "\<forall>c\<in>set cs. column_ok E eps slot vs c
           \<and> slot < length (storage ws)
           \<and> (c + 1) * dim_e E \<le> length (storage ws ! slot)"
  using assms
proof (induction cs arbitrary: ws)
  case Nil
  show ?case by simp
next
  case (Cons c cs)
  let ?col = "column E eps slot vs c"
  from numeric_column_cases [of E eps slot c vs]
  have ok: "numeric_column E eps slot c vs = (Inr ?col, vs)"
  proof
    assume "numeric_column E eps slot c vs = (Inr ?col, vs)"
    then show ?thesis .
  next
    assume "\<exists>err. numeric_column E eps slot c vs = (Inl err, vs)"
    then show ?thesis using Cons.prems by auto
  qed
  then have cok: "column_ok E eps slot vs c" by (simp add: column_ok_def)
  then have len: "length ?col = dim_e E" by (rule column_ok_length)
  obtain ws2 where wr: "write_column ws slot c ?col = Inr ws2"
    and rest: "numeric_block E eps slot cs (vs, ws2) = Inr (vs', ws')"
    using Cons.prems ok by (cases "write_column ws slot c ?col") simp_all
  have w: "slot < length (storage ws)" "(c + 1) * dim_e E \<le> length (storage ws ! slot)"
    and ws2: "ws2 = ws\<lparr>storage := (storage ws)
                [slot := write_at (storage ws ! slot) (c * dim_e E) ?col]\<rparr>"
    using write_column_Inr [OF wr] len by simp_all
  have lbuf: "length (storage ws2 ! slot) = length (storage ws ! slot)"
    using w len by (simp add: ws2 length_write_at)
  have "\<forall>c\<in>set cs. column_ok E eps slot vs c
           \<and> slot < length (storage ws2)
           \<and> (c + 1) * dim_e E \<le> length (storage ws2 ! slot)"
    using Cons.IH [OF rest] .
  then show ?case using cok w lbuf by (simp add: ws2)
qed

lemma numeric_block_result:
  assumes "numeric_block E eps slot cs (vs, ws) = Inr (vs', ws')"
  shows "vs' = vs \<and> ws' = ws\<lparr>storage := (storage ws)
           [slot := fill (column E eps slot vs) (dim_e E) cs (storage ws ! slot)]\<rparr>"
proof (cases cs)
  case Nil
  then show ?thesis using assms by (simp add: fill_Nil)
next
  case (Cons c cs')
  have conds: "\<forall>c\<in>set cs. column_ok E eps slot vs c
           \<and> slot < length (storage ws)
           \<and> (c + 1) * dim_e E \<le> length (storage ws ! slot)"
    using numeric_block_Inr [OF assms] .
  then have "slot < length (storage ws)" using Cons by simp
  then have "numeric_block E eps slot cs (vs, ws) =
     Inr (vs, ws\<lparr>storage := (storage ws)
            [slot := fill (column E eps slot vs) (dim_e E) cs (storage ws ! slot)]\<rparr>)"
    using conds by (intro numeric_block_ok) simp_all
  then show ?thesis using assms by simp
qed

lemma numeric_block_shape:
  assumes "numeric_block E eps slot cs (vs, ws) = Inr (vs', ws')"
  shows "length (storage ws') = length (storage ws)
     \<and> (\<forall>s. length (storage ws' ! s) = length (storage ws ! s))
     \<and> (\<forall>s. s \<noteq> slot \<longrightarrow> storage ws' ! s = storage ws ! s)"
proof -
  let ?f = "fill (column E eps slot vs) (dim_e E) cs (storage ws ! slot)"
  have ws': "ws' = ws\<lparr>storage := (storage ws)[slot := ?f]\<rparr>"
    using numeric_block_result [OF assms] by simp
  have conds: "\<forall>c\<in>set cs. length (column E eps slot vs c) = dim_e E
                 \<and> (c + 1) * dim_e E \<le> length (storage ws ! slot)"
    using numeric_block_Inr [OF assms] column_ok_length by blast
  have lf: "length ?f = length (storage ws ! slot)"
    using length_fill [OF conds] .
  have "length (storage ws' ! s) = length (storage ws ! s)" for s
  proof (cases "s = slot \<and> slot < length (storage ws)")
    case True
    then show ?thesis using lf by (simp add: ws')
  next
    case False
    then consider "s \<noteq> slot" | "length (storage ws) \<le> slot" by force
    then show ?thesis by cases (simp_all add: ws' list_update_beyond)
  qed
  then show ?thesis by (simp add: ws')
qed

lemma numeric_block_take:
  assumes "numeric_block E eps slot [0..<D] (vs, ws) = Inr (vs', ws')"
  shows "take (D * dim_e E) (storage ws' ! slot) =
           concat (map (column E eps slot vs) [0..<D])"
proof (cases D)
  case 0
  then show ?thesis by simp
next
  case (Suc n)
  let ?f = "fill (column E eps slot vs) (dim_e E) [0..<D] (storage ws ! slot)"
  have conds: "\<forall>c\<in>set [0..<D]. column_ok E eps slot vs c
           \<and> slot < length (storage ws)
           \<and> (c + 1) * dim_e E \<le> length (storage ws ! slot)"
    using numeric_block_Inr [OF assms] .
  have "n \<in> set [0..<D]" using Suc by simp
  then have slot: "slot < length (storage ws)"
    and fit: "D * dim_e E \<le> length (storage ws ! slot)"
    using conds Suc by auto
  have cols: "\<forall>c<D. length (column E eps slot vs c) = dim_e E"
    using conds column_ok_length by fastforce
  have "storage ws' ! slot = ?f"
    using numeric_block_result [OF assms] slot by simp
  then show ?thesis using take_fill [OF cols fit] by simp
qed

lemma evaluateNumeric_Inr:
  assumes "evaluateNumeric E ws eps vs = Inr (vs', ws')"
  shows "\<exists>ws1. numeric_block E eps 0 [0..<dimension (v_i vs)] (vs, ws) = Inr (vs, ws1)
             \<and> numeric_block E eps 1 [0..<dimension (v_j vs)] (vs, ws1) = Inr (vs', ws')"
proof (cases "numeric_block E eps 0 [0..<dimension (v_i vs)] (vs, ws)")
  case (Inl failure)
  then show ?thesis using assms by (simp add: evaluateNumeric_def)
next
  case (Inr st)
  obtain vs1 ws1 where st: "st = (vs1, ws1)" by (cases st)
  have "vs1 = vs" using numeric_block_result [OF Inr [unfolded st]] by simp
  then show ?thesis using assms Inr st by (simp add: evaluateNumeric_def)
qed

lemma evaluateNumeric_frame:
  "(case evaluateNumeric E ws eps vs of
      Inl (err, vs', ws') \<Rightarrow> vs' = vs
    | Inr (vs', ws') \<Rightarrow> vs' = vs)"
proof (cases "numeric_block E eps 0 [0..<dimension (v_i vs)] (vs, ws)")
  case (Inl failure)
  then show ?thesis
    using numeric_block_frame [where E = E and eps = eps and slot = 0
        and cs = "[0..<dimension (v_i vs)]" and vs = vs and ws = ws]
    by (simp add: evaluateNumeric_def)
next
  case (Inr st)
  obtain vs1 ws1 where st: "st = (vs1, ws1)" by (cases st)
  have vs1: "vs1 = vs" using numeric_block_result [OF Inr [unfolded st]] by simp
  show ?thesis
    using numeric_block_frame [where E = E and eps = eps and slot = 1
        and cs = "[0..<dimension (v_j vs)]" and vs = vs and ws = ws1] Inr st vs1
    by (simp add: evaluateNumeric_def)
qed

lemma evaluateNumeric_blocks:
  assumes "evaluateNumeric E ws eps vs = Inr (vs', ws')"
  shows "vs' = vs
     \<and> blockFor ws' 0 (dim_e E * dimension (v_i vs)) =
         concat (map (column E eps 0 vs) [0..<dimension (v_i vs)])
     \<and> blockFor ws' 1 (dim_e E * dimension (v_j vs)) =
         concat (map (column E eps 1 vs) [0..<dimension (v_j vs)])
     \<and> (\<forall>c<dimension (v_i vs). column_ok E eps 0 vs c)
     \<and> (\<forall>c<dimension (v_j vs). column_ok E eps 1 vs c)
     \<and> length (storage ws') = length (storage ws)
     \<and> (\<forall>s. length (storage ws' ! s) = length (storage ws ! s))"
proof -
  obtain ws1 where b0: "numeric_block E eps 0 [0..<dimension (v_i vs)] (vs, ws) = Inr (vs, ws1)"
    and b1: "numeric_block E eps 1 [0..<dimension (v_j vs)] (vs, ws1) = Inr (vs', ws')"
    using evaluateNumeric_Inr [OF assms] by blast
  have vs': "vs' = vs" using numeric_block_result [OF b1] by simp
  have t0: "take (dimension (v_i vs) * dim_e E) (storage ws1 ! 0) =
           concat (map (column E eps 0 vs) [0..<dimension (v_i vs)])"
    using numeric_block_take [OF b0] .
  have t1: "take (dimension (v_j vs) * dim_e E) (storage ws' ! 1) =
           concat (map (column E eps 1 vs) [0..<dimension (v_j vs)])"
    using numeric_block_take [OF b1] .
  have s0: "length (storage ws1) = length (storage ws)"
     "\<forall>s. length (storage ws1 ! s) = length (storage ws ! s)"
    using numeric_block_shape [OF b0] by simp_all
  have s1: "length (storage ws') = length (storage ws1)"
     "\<forall>s. length (storage ws' ! s) = length (storage ws1 ! s)"
     "storage ws' ! 0 = storage ws1 ! 0"
    using numeric_block_shape [OF b1] by simp_all
  have c0: "\<forall>c<dimension (v_i vs). column_ok E eps 0 vs c"
    using numeric_block_Inr [OF b0] by simp
  have c1: "\<forall>c<dimension (v_j vs). column_ok E eps 1 vs c"
    using numeric_block_Inr [OF b1] by simp
  show ?thesis
    using vs' t0 t1 s0 s1 c0 c1 by (simp add: blockFor_def mult.commute)
qed

lemma evaluateNumeric_ok:
  assumes sized: "sized_for ws E vs"
    and c0: "\<forall>c<dimension (v_i vs). column_ok E eps 0 vs c"
    and c1: "\<forall>c<dimension (v_j vs). column_ok E eps 1 vs c"
  shows "\<exists>ws'. evaluateNumeric E ws eps vs = Inr (vs, ws')"
proof -
  have two: "2 \<le> length (storage ws)"
    and f0: "dim_e E * dimension (v_i vs) \<le> length (storage ws ! 0)"
    and f1: "dim_e E * dimension (v_j vs) \<le> length (storage ws ! 1)"
    using sized by (simp_all add: sized_for_def)
  have len: "0 < length (storage ws)" "1 < length (storage ws)"
    using two by linarith+
  have fit0: "\<forall>c\<in>set [0..<dimension (v_i vs)]. (c + 1) * dim_e E \<le> length (storage ws ! 0)"
  proof
    fix c assume "c \<in> set [0..<dimension (v_i vs)]"
    then have "(c + 1) * dim_e E \<le> dimension (v_i vs) * dim_e E"
      by (intro column_end_le) simp
    then show "(c + 1) * dim_e E \<le> length (storage ws ! 0)"
      using f0 by (simp add: mult.commute)
  qed
  have fit1: "\<forall>c\<in>set [0..<dimension (v_j vs)]. (c + 1) * dim_e E \<le> length (storage ws ! 1)"
  proof
    fix c assume "c \<in> set [0..<dimension (v_j vs)]"
    then have "(c + 1) * dim_e E \<le> dimension (v_j vs) * dim_e E"
      by (intro column_end_le) simp
    then show "(c + 1) * dim_e E \<le> length (storage ws ! 1)"
      using f1 by (simp add: mult.commute)
  qed
  let ?ws1 = "ws\<lparr>storage := (storage ws)
            [0 := fill (column E eps 0 vs) (dim_e E) [0..<dimension (v_i vs)] (storage ws ! 0)]\<rparr>"
  have b0: "numeric_block E eps 0 [0..<dimension (v_i vs)] (vs, ws) = Inr (vs, ?ws1)"
    using c0 len(1) fit0 by (intro numeric_block_ok) simp_all
  have same: "storage ?ws1 ! 1 = storage ws ! 1" by simp
  have b1: "numeric_block E eps 1 [0..<dimension (v_j vs)] (vs, ?ws1) =
     Inr (vs, ?ws1\<lparr>storage := (storage ?ws1)
            [1 := fill (column E eps 1 vs) (dim_e E) [0..<dimension (v_j vs)]
                    (storage ?ws1 ! 1)]\<rparr>)"
  proof (rule numeric_block_ok)
    show "\<forall>c\<in>set [0..<dimension (v_j vs)]. column_ok E eps 1 vs c" using c1 by simp
    show "1 < length (storage ?ws1)" using len(2) by simp
    show "\<forall>c\<in>set [0..<dimension (v_j vs)]. (c + 1) * dim_e E \<le> length (storage ?ws1 ! 1)"
      using fit1 unfolding same .
  qed
  show ?thesis
    unfolding evaluateNumeric_def b0 using b1 by simp
qed

subsection \<open>The analytic evaluation and the dispatcher\<close>

lemma write_block_Inr:
  assumes "write_block ws slot blk = Inr ws'"
  shows "slot < length (storage ws) \<and> length blk \<le> length (storage ws ! slot)
     \<and> ws' = ws\<lparr>storage := (storage ws)[slot := blk @ drop (length blk) (storage ws ! slot)]\<rparr>"
  using assms by (auto simp: write_block_def write_at_def split: if_splits)

lemma write_block_ok:
  "slot < length (storage ws) \<Longrightarrow> length blk \<le> length (storage ws ! slot) \<Longrightarrow>
     write_block ws slot blk =
       Inr (ws\<lparr>storage := (storage ws)[slot := blk @ drop (length blk) (storage ws ! slot)]\<rparr>)"
  by (simp add: write_block_def write_at_def)

lemma evaluateAnalytic_Inr:
  assumes "evaluateAnalytic J E ws vs = Inr (vs', ws')"
    and "J (estimate (v_i vs)) (estimate (v_j vs)) (measurement E) = (Ji, Jj)"
  shows "vs' = vs
     \<and> length Ji = dim_e E * dimension (v_i vs)
     \<and> length Jj = dim_e E * dimension (v_j vs)
     \<and> blockFor ws' 0 (dim_e E * dimension (v_i vs)) = Ji
     \<and> blockFor ws' 1 (dim_e E * dimension (v_j vs)) = Jj
     \<and> length (storage ws') = length (storage ws)
     \<and> (\<forall>s. length (storage ws' ! s) = length (storage ws ! s))"
proof -
  have li: "length Ji = dim_e E * dimension (v_i vs)"
    and lj: "length Jj = dim_e E * dimension (v_j vs)"
    using assms by (auto simp: evaluateAnalytic_def split: if_splits)
  obtain w1 where w1: "write_block ws 0 Ji = Inr w1"
    and w2: "write_block w1 1 Jj = Inr ws'" and vs': "vs' = vs"
    using assms li lj
    by (auto simp: evaluateAnalytic_def split: if_splits sum.splits)
  have a: "0 < length (storage ws)" "length Ji \<le> length (storage ws ! 0)"
    and w1_eq: "w1 = ws\<lparr>storage := (storage ws)[0 := Ji @ drop (length Ji) (storage ws ! 0)]\<rparr>"
    using write_block_Inr [OF w1] by simp_all
  have b: "1 < length (storage w1)" "length Jj \<le> length (storage w1 ! 1)"
    and ws'_eq: "ws' = w1\<lparr>storage := (storage w1)[1 := Jj @ drop (length Jj) (storage w1 ! 1)]\<rparr>"
    using write_block_Inr [OF w2] by simp_all
  have s0: "storage ws' ! 0 = Ji @ drop (length Ji) (storage ws ! 0)"
    using a by (simp add: ws'_eq w1_eq)
  have s1: "storage ws' ! 1 = Jj @ drop (length Jj) (storage ws ! 1)"
    using b by (simp add: ws'_eq w1_eq)
  have len: "length (storage ws') = length (storage ws)"
    by (simp add: ws'_eq w1_eq)
  have "length (storage ws' ! s) = length (storage ws ! s)" for s
  proof -
    consider "s = 0" | "s = 1" | "s \<noteq> 0" "s \<noteq> 1" by blast
    then show ?thesis
    proof cases
      case 1 then show ?thesis using s0 a by simp
    next
      case 2 then show ?thesis using s1 b by (simp add: w1_eq)
    next
      case 3 then show ?thesis by (simp add: ws'_eq w1_eq)
    qed
  qed
  then show ?thesis
    using vs' li lj s0 s1 len by (simp add: blockFor_def)
qed

lemma evaluateAnalytic_ok:
  assumes sized: "sized_for ws E vs"
    and J: "J (estimate (v_i vs)) (estimate (v_j vs)) (measurement E) = (Ji, Jj)"
    and li: "length Ji = dim_e E * dimension (v_i vs)"
    and lj: "length Jj = dim_e E * dimension (v_j vs)"
  shows "\<exists>ws'. evaluateAnalytic J E ws vs = Inr (vs, ws')"
proof -
  have two: "2 \<le> length (storage ws)"
    and f0: "dim_e E * dimension (v_i vs) \<le> length (storage ws ! 0)"
    and f1: "dim_e E * dimension (v_j vs) \<le> length (storage ws ! 1)"
    using sized by (simp_all add: sized_for_def)
  have len: "0 < length (storage ws)" "1 < length (storage ws)"
    using two by linarith+
  let ?w1 = "ws\<lparr>storage := (storage ws)[0 := Ji @ drop (length Ji) (storage ws ! 0)]\<rparr>"
  have w1: "write_block ws 0 Ji = Inr ?w1"
    using len(1) f0 li by (intro write_block_ok) simp_all
  have same: "storage ?w1 ! 1 = storage ws ! 1" by simp
  have w2: "write_block ?w1 1 Jj =
      Inr (?w1\<lparr>storage := (storage ?w1)[1 := Jj @ drop (length Jj) (storage ?w1 ! 1)]\<rparr>)"
  proof (rule write_block_ok)
    show "1 < length (storage ?w1)" using len(2) by simp
    show "length Jj \<le> length (storage ?w1 ! 1)" unfolding same using f1 lj by simp
  qed
  show ?thesis
    unfolding evaluateAnalytic_def J using li lj w1 w2 by simp
qed

lemma evaluate_shape:
  assumes "evaluate E ws eps vs = Inr (vs', ws')"
  shows "length (storage ws') = length (storage ws)
     \<and> (\<forall>s. length (storage ws' ! s) = length (storage ws ! s))"
proof (cases "closed_form E")
  case None
  then have "evaluateNumeric E ws eps vs = Inr (vs', ws')"
    using assms by (simp add: evaluate_def)
  then show ?thesis using evaluateNumeric_blocks by blast
next
  case (Some J)
  then have ev: "evaluateAnalytic J E ws vs = Inr (vs', ws')"
    using assms by (simp add: evaluate_def)
  obtain Ji Jj where "J (estimate (v_i vs)) (estimate (v_j vs)) (measurement E) = (Ji, Jj)"
    by (cases "J (estimate (v_i vs)) (estimate (v_j vs)) (measurement E)")
  then show ?thesis using evaluateAnalytic_Inr [OF ev] by blast
qed

lemma sized_for_shape:
  assumes "sized_for ws E vs"
    and "length (storage ws') = length (storage ws)"
    and "\<forall>s. length (storage ws' ! s) = length (storage ws ! s)"
  shows "sized_for ws' E vs"
  using assms by (simp add: sized_for_def)

lemma sized_for_allocate: "sized_for (allocate (updateSize ws0 E vs)) E vs"
proof -
  let ?n = "max (maxNumVertices ws0) 2"
  let ?d = "max (maxDimension ws0)
          (max (dim_e E * dimension (v_i vs)) (dim_e E * dimension (v_j vs)))"
  have st: "storage (allocate (updateSize ws0 E vs)) = replicate ?n (replicate ?d 0)"
    by (simp add: allocate_def updateSize_def)
  have n: "2 \<le> ?n" "0 < ?n" "1 < ?n" by simp_all
  have d: "dim_e E * dimension (v_i vs) \<le> ?d" "dim_e E * dimension (v_j vs) \<le> ?d"
    by linarith+
  show ?thesis
    unfolding sized_for_def st using n d by simp
qed

lemma evaluate_blocks_agree:
  assumes s1: "sized_for ws1 E vs" and s2: "sized_for ws2 E vs"
    and ev: "evaluate E ws1 eps vs = Inr (vs1, ws1')"
  shows "\<exists>ws2'. evaluate E ws2 eps vs = Inr (vs1, ws2')
     \<and> blockFor ws2' 0 (dim_e E * dimension (v_i vs)) =
         blockFor ws1' 0 (dim_e E * dimension (v_i vs))
     \<and> blockFor ws2' 1 (dim_e E * dimension (v_j vs)) =
         blockFor ws1' 1 (dim_e E * dimension (v_j vs))"
proof (cases "closed_form E")
  case None
  then have e1: "evaluateNumeric E ws1 eps vs = Inr (vs1, ws1')"
    using ev by (simp add: evaluate_def)
  note f1 = evaluateNumeric_blocks [OF e1]
  then have vs1: "vs1 = vs" by simp
  obtain ws2' where e2: "evaluateNumeric E ws2 eps vs = Inr (vs, ws2')"
    using evaluateNumeric_ok [OF s2] f1 by blast
  note f2 = evaluateNumeric_blocks [OF e2]
  have "evaluate E ws2 eps vs = Inr (vs1, ws2')"
    using e2 None vs1 by (simp add: evaluate_def)
  then show ?thesis using f1 f2 by simp
next
  case (Some J)
  then have e1: "evaluateAnalytic J E ws1 vs = Inr (vs1, ws1')"
    using ev by (simp add: evaluate_def)
  obtain Ji Jj where J: "J (estimate (v_i vs)) (estimate (v_j vs)) (measurement E) = (Ji, Jj)"
    by (cases "J (estimate (v_i vs)) (estimate (v_j vs)) (measurement E)")
  note f1 = evaluateAnalytic_Inr [OF e1 J]
  then have vs1: "vs1 = vs" by simp
  obtain ws2' where e2: "evaluateAnalytic J E ws2 vs = Inr (vs, ws2')"
    using evaluateAnalytic_ok [where J = J, OF s2 J] f1 by blast
  note f2 = evaluateAnalytic_Inr [OF e2 J]
  have "evaluate E ws2 eps vs = Inr (vs1, ws2')"
    using e2 Some vs1 by (simp add: evaluate_def)
  then show ?thesis using f1 f2 by simp
qed

subsection \<open>Entries of a block, and evaluation at concrete inputs\<close>

lemma computeError_ok:
  "length (error_fn E (estimate (v_i vs)) (estimate (v_j vs)) (measurement E)) = dim_e E \<Longrightarrow>
     computeError E vs =
       Inr (error_fn E (estimate (v_i vs)) (estimate (v_j vs)) (measurement E))"
  by (simp add: computeError_def)

lemma column_okI:
  assumes "computeError E (set_vertex vs slot
         (oplus (get_vertex vs slot) (basis (dimension (get_vertex vs slot)) c eps))) = Inr ep"
    and "computeError E (set_vertex vs slot
         (oplus (get_vertex vs slot) (basis (dimension (get_vertex vs slot)) c (- eps)))) = Inr em"
  shows "column_ok E eps slot vs c"
  using assms
  by (simp add: column_ok_def column_def numeric_column_def perturbed_error_eq Let_def)

lemma column_ok_i:
  assumes "\<forall>d\<in>{eps, - eps}.
      length (error_fn E (oplus_fn (v_i vs) (estimate (v_i vs))
                            (basis (dimension (v_i vs)) c d))
                         (estimate (v_j vs)) (measurement E)) = dim_e E"
  shows "column_ok E eps 0 vs c"
proof (rule column_okI)
  show "computeError E (set_vertex vs 0
         (oplus (get_vertex vs 0) (basis (dimension (get_vertex vs 0)) c eps))) =
       Inr (error_fn E (oplus_fn (v_i vs) (estimate (v_i vs)) (basis (dimension (v_i vs)) c eps))
                       (estimate (v_j vs)) (measurement E))"
    using assms by (simp add: computeError_def set_vertex_def get_vertex_def oplus_def)
  show "computeError E (set_vertex vs 0
         (oplus (get_vertex vs 0) (basis (dimension (get_vertex vs 0)) c (- eps)))) =
       Inr (error_fn E (oplus_fn (v_i vs) (estimate (v_i vs)) (basis (dimension (v_i vs)) c (- eps)))
                       (estimate (v_j vs)) (measurement E))"
    using assms by (simp add: computeError_def set_vertex_def get_vertex_def oplus_def)
qed

lemma column_ok_j:
  assumes "\<forall>d\<in>{eps, - eps}.
      length (error_fn E (estimate (v_i vs))
                         (oplus_fn (v_j vs) (estimate (v_j vs))
                            (basis (dimension (v_j vs)) c d))
                         (measurement E)) = dim_e E"
  shows "column_ok E eps 1 vs c"
proof (rule column_okI)
  show "computeError E (set_vertex vs 1
         (oplus (get_vertex vs 1) (basis (dimension (get_vertex vs 1)) c eps))) =
       Inr (error_fn E (estimate (v_i vs))
              (oplus_fn (v_j vs) (estimate (v_j vs)) (basis (dimension (v_j vs)) c eps))
              (measurement E))"
    using assms by (simp add: computeError_def set_vertex_def get_vertex_def oplus_def)
  show "computeError E (set_vertex vs 1
         (oplus (get_vertex vs 1) (basis (dimension (get_vertex vs 1)) c (- eps)))) =
       Inr (error_fn E (estimate (v_i vs))
              (oplus_fn (v_j vs) (estimate (v_j vs)) (basis (dimension (v_j vs)) c (- eps)))
              (measurement E))"
    using assms by (simp add: computeError_def set_vertex_def get_vertex_def oplus_def)
qed

lemma evaluateNumeric_succeeds:
  assumes "sized_for ws E vs"
    and "\<forall>c<dimension (v_i vs). \<forall>d\<in>{eps, - eps}.
      length (error_fn E (oplus_fn (v_i vs) (estimate (v_i vs))
                            (basis (dimension (v_i vs)) c d))
                         (estimate (v_j vs)) (measurement E)) = dim_e E"
    and "\<forall>c<dimension (v_j vs). \<forall>d\<in>{eps, - eps}.
      length (error_fn E (estimate (v_i vs))
                         (oplus_fn (v_j vs) (estimate (v_j vs))
                            (basis (dimension (v_j vs)) c d))
                         (measurement E)) = dim_e E"
  shows "\<exists>ws'. evaluateNumeric E ws eps vs = Inr (vs, ws')"
proof (rule evaluateNumeric_ok [OF assms(1)])
  show "\<forall>c<dimension (v_i vs). column_ok E eps 0 vs c"
    using assms(2) column_ok_i by blast
  show "\<forall>c<dimension (v_j vs). column_ok E eps 1 vs c"
    using assms(3) column_ok_j by blast
qed

lemma column_value:
  assumes ok: "column_ok E eps slot vs c" and r: "r < dim_e E"
    and P: "P = set_vertex vs slot
         (oplus (get_vertex vs slot) (basis (dimension (get_vertex vs slot)) c eps))"
    and M: "M = set_vertex vs slot
         (oplus (get_vertex vs slot) (basis (dimension (get_vertex vs slot)) c (- eps)))"
  shows "column E eps slot vs c ! r =
     (error_fn E (estimate (v_i P)) (estimate (v_j P)) (measurement E) ! r
      - error_fn E (estimate (v_i M)) (estimate (v_j M)) (measurement E) ! r) / (2 * eps)"
proof -
  have "fst (numeric_column E eps slot c vs) = Inr (column E eps slot vs c)"
    using ok by (simp add: column_ok_def)
  then obtain ep em where ep: "computeError E P = Inr ep"
    and em: "computeError E M = Inr em"
    and col: "column E eps slot vs c = central_difference eps ep em"
    using numeric_column_Inr [of E eps slot c vs] P M by blast
  have lp: "length ep = dim_e E" and lm: "length em = dim_e E"
    by (rule computeError_length [OF ep], rule computeError_length [OF em])
  have vp: "ep = error_fn E (estimate (v_i P)) (estimate (v_j P)) (measurement E)"
    by (rule computeError_value [OF ep])
  have vm: "em = error_fn E (estimate (v_i M)) (estimate (v_j M)) (measurement E)"
    by (rule computeError_value [OF em])
  have "central_difference eps ep em ! r = (ep ! r - em ! r) / (2 * eps)"
    using central_difference_nth [OF lp lm r] by simp
  then show ?thesis unfolding col vp vm .
qed

lemma block_entry:
  assumes blk: "blockFor ws' slot (dim_e E * D) = concat (map (column E eps slot vs) [0..<D])"
    and cols: "\<forall>c<D. column_ok E eps slot vs c"
    and c: "c < D" and r: "r < dim_e E"
  shows "storage ws' ! slot ! (c * dim_e E + r) = column E eps slot vs c ! r"
proof -
  have lens: "\<forall>c<D. length (column E eps slot vs c) = dim_e E"
    using cols column_ok_length by blast
  have "(c + 1) * dim_e E \<le> D * dim_e E" using c by (rule column_end_le)
  then have lt: "c * dim_e E + r < dim_e E * D" using r by (simp add: mult.commute)
  have "storage ws' ! slot ! (c * dim_e E + r) =
          take (dim_e E * D) (storage ws' ! slot) ! (c * dim_e E + r)"
    using lt by simp
  also have "\<dots> = concat (map (column E eps slot vs) [0..<D]) ! (c * dim_e E + r)"
    using blk by (simp add: blockFor_def)
  also have "\<dots> = column E eps slot vs c ! r"
    using nth_concat_columns [OF lens c r] .
  finally show ?thesis .
qed

lemma basis_3: "basis 3 c eps = [0, 0, 0][c := eps]"
  by (simp add: basis_def numeral_3_eq_3)

lemmas eval_dispatch = evaluateNumeric_def numeric_column_def perturbed_error_def
  computeError_def write_column_def write_at_def basis_3 central_difference_def oplus_def
  get_vertex_def set_vertex_def point_vertex_def point_edge_def Let_def upt_rec

lemma replicate_2: "replicate 2 x = [x, x]"
  by (simp add: numeral_2_eq_2)

lemma replicate_9: "replicate 9 x = [x, x, x, x, x, x, x, x, x]"
  by (simp add: eval_nat_numeral)

lemma replicate_12: "replicate 12 x = [x, x, x, x, x, x, x, x, x, x, x, x]"
  by (simp add: eval_nat_numeral)

section \<open>Numeric evaluation\<close>

text \<open>
  Claim C7. For every edge, workspace, vertices and \<open>epsilon > 0\<close>: whether the numeric
  evaluation succeeds or returns an error, the vertices it returns are the vertices before
  the call, estimates included; when it succeeds, for each vertex in \<open>{i, j}\<close>, each
  tangent coordinate \<open>c\<close> and each row \<open>r\<close>, entry \<open>r\<close> of column \<open>c\<close> of the block of that
  vertex is \<open>(e(+) - e(-)) / (2 * epsilon)\<close>, where \<open>e(+)\<close> and \<open>e(-)\<close> are the errors with
  the estimate of that vertex moved through oplus by \<open>+epsilon\<close> and by \<open>-epsilon\<close> along
  basis vector \<open>c\<close>, the other vertex being at its estimate before the call; and it
  succeeds whenever the workspace is sized for the edge and the error vectors at the
  perturbed estimates have \<open>D_e\<close> entries. The theorem is instantiated at an edge between
  two points: with a workspace that was sized and allocated, with a workspace that was not,
  and with an error dimension that does not match the error vector; the last two are error
  paths.
\<close>

theorem evaluateNumeric_central_difference_restore:
  assumes "0 < eps"
  shows "(case evaluateNumeric E ws eps vs of
            Inl (err, vs', ws') \<Rightarrow> vs' = vs
          | Inr (vs', ws') \<Rightarrow> vs' = vs)
     \<and> (\<forall>vs' ws'. evaluateNumeric E ws eps vs = Inr (vs', ws') \<longrightarrow>
          (\<forall>c<dimension (v_i vs). \<forall>r<dim_e E.
             storage ws' ! 0 ! (c * dim_e E + r) =
               (error_fn E (oplus_fn (v_i vs) (estimate (v_i vs))
                              (basis (dimension (v_i vs)) c eps))
                           (estimate (v_j vs)) (measurement E) ! r
                - error_fn E (oplus_fn (v_i vs) (estimate (v_i vs))
                              (basis (dimension (v_i vs)) c (- eps)))
                           (estimate (v_j vs)) (measurement E) ! r) / (2 * eps))
        \<and> (\<forall>c<dimension (v_j vs). \<forall>r<dim_e E.
             storage ws' ! 1 ! (c * dim_e E + r) =
               (error_fn E (estimate (v_i vs))
                           (oplus_fn (v_j vs) (estimate (v_j vs))
                              (basis (dimension (v_j vs)) c eps))
                           (measurement E) ! r
                - error_fn E (estimate (v_i vs))
                           (oplus_fn (v_j vs) (estimate (v_j vs))
                              (basis (dimension (v_j vs)) c (- eps)))
                           (measurement E) ! r) / (2 * eps)))
     \<and> (sized_for ws E vs
          \<and> (\<forall>c<dimension (v_i vs). \<forall>d\<in>{eps, - eps}.
                length (error_fn E (oplus_fn (v_i vs) (estimate (v_i vs))
                                      (basis (dimension (v_i vs)) c d))
                                   (estimate (v_j vs)) (measurement E)) = dim_e E)
          \<and> (\<forall>c<dimension (v_j vs). \<forall>d\<in>{eps, - eps}.
                length (error_fn E (estimate (v_i vs))
                                   (oplus_fn (v_j vs) (estimate (v_j vs))
                                      (basis (dimension (v_j vs)) c d))
                                   (measurement E)) = dim_e E)
          \<longrightarrow> (\<exists>ws'. evaluateNumeric E ws eps vs = Inr (vs, ws')))"
proof (intro conjI allI impI)
  show "case evaluateNumeric E ws eps vs of
            Inl (err, vs', ws') \<Rightarrow> vs' = vs
          | Inr (vs', ws') \<Rightarrow> vs' = vs"
    by (rule evaluateNumeric_frame)
next
  fix vs' ws' c r
  assume ev: "evaluateNumeric E ws eps vs = Inr (vs', ws')"
    and c: "c < dimension (v_i vs)" and r: "r < dim_e E"
  note f = evaluateNumeric_blocks [OF ev]
  have cols: "\<forall>c<dimension (v_i vs). column_ok E eps 0 vs c" using f by simp
  have blk: "blockFor ws' 0 (dim_e E * dimension (v_i vs)) =
         concat (map (column E eps 0 vs) [0..<dimension (v_i vs)])" using f by simp
  have "storage ws' ! 0 ! (c * dim_e E + r) = column E eps 0 vs c ! r"
    using block_entry [OF blk cols c r] .
  also have "\<dots> =
     (error_fn E (oplus_fn (v_i vs) (estimate (v_i vs)) (basis (dimension (v_i vs)) c eps))
                 (estimate (v_j vs)) (measurement E) ! r
      - error_fn E (oplus_fn (v_i vs) (estimate (v_i vs)) (basis (dimension (v_i vs)) c (- eps)))
                 (estimate (v_j vs)) (measurement E) ! r) / (2 * eps)"
    using column_value [OF _ r refl refl, of eps 0 vs c] cols c
    by (simp add: set_vertex_def get_vertex_def oplus_def)
  finally show "storage ws' ! 0 ! (c * dim_e E + r) =
     (error_fn E (oplus_fn (v_i vs) (estimate (v_i vs)) (basis (dimension (v_i vs)) c eps))
                 (estimate (v_j vs)) (measurement E) ! r
      - error_fn E (oplus_fn (v_i vs) (estimate (v_i vs)) (basis (dimension (v_i vs)) c (- eps)))
                 (estimate (v_j vs)) (measurement E) ! r) / (2 * eps)" .
next
  fix vs' ws' c r
  assume ev: "evaluateNumeric E ws eps vs = Inr (vs', ws')"
    and c: "c < dimension (v_j vs)" and r: "r < dim_e E"
  note f = evaluateNumeric_blocks [OF ev]
  have cols: "\<forall>c<dimension (v_j vs). column_ok E eps 1 vs c" using f by simp
  have blk: "blockFor ws' 1 (dim_e E * dimension (v_j vs)) =
         concat (map (column E eps 1 vs) [0..<dimension (v_j vs)])" using f by simp
  have "storage ws' ! 1 ! (c * dim_e E + r) = column E eps 1 vs c ! r"
    using block_entry [OF blk cols c r] .
  also have "\<dots> =
     (error_fn E (estimate (v_i vs))
                 (oplus_fn (v_j vs) (estimate (v_j vs)) (basis (dimension (v_j vs)) c eps))
                 (measurement E) ! r
      - error_fn E (estimate (v_i vs))
                 (oplus_fn (v_j vs) (estimate (v_j vs)) (basis (dimension (v_j vs)) c (- eps)))
                 (measurement E) ! r) / (2 * eps)"
    using column_value [OF _ r refl refl, of eps 1 vs c] cols c
    by (simp add: set_vertex_def get_vertex_def oplus_def)
  finally show "storage ws' ! 1 ! (c * dim_e E + r) =
     (error_fn E (estimate (v_i vs))
                 (oplus_fn (v_j vs) (estimate (v_j vs)) (basis (dimension (v_j vs)) c eps))
                 (measurement E) ! r
      - error_fn E (estimate (v_i vs))
                 (oplus_fn (v_j vs) (estimate (v_j vs)) (basis (dimension (v_j vs)) c (- eps)))
                 (measurement E) ! r) / (2 * eps)" .
next
  assume "sized_for ws E vs
          \<and> (\<forall>c<dimension (v_i vs). \<forall>d\<in>{eps, - eps}.
                length (error_fn E (oplus_fn (v_i vs) (estimate (v_i vs))
                                      (basis (dimension (v_i vs)) c d))
                                   (estimate (v_j vs)) (measurement E)) = dim_e E)
          \<and> (\<forall>c<dimension (v_j vs). \<forall>d\<in>{eps, - eps}.
                length (error_fn E (estimate (v_i vs))
                                   (oplus_fn (v_j vs) (estimate (v_j vs))
                                      (basis (dimension (v_j vs)) c d))
                                   (measurement E)) = dim_e E)"
  then show "\<exists>ws'. evaluateNumeric E ws eps vs = Inr (vs, ws')"
    using evaluateNumeric_succeeds [of ws E vs eps] by blast
qed

theorem evaluateNumeric_central_difference_restore_witness:
  "(0::real) < 1 / 1000000
   \<and> sized_for
        (allocate (updateSize \<lparr>maxNumVertices = 0, maxDimension = 0, storage = []\<rparr>
           (point_edge [1, 1, 1] None)
           \<lparr>v_i = point_vertex 0 [1, 2, 3], v_j = point_vertex 1 [4, 6, 8]\<rparr>))
        (point_edge [1, 1, 1] None)
        \<lparr>v_i = point_vertex 0 [1, 2, 3], v_j = point_vertex 1 [4, 6, 8]\<rparr>
   \<and> evaluateNumeric (point_edge [1, 1, 1] None)
        (allocate (updateSize \<lparr>maxNumVertices = 0, maxDimension = 0, storage = []\<rparr>
           (point_edge [1, 1, 1] None)
           \<lparr>v_i = point_vertex 0 [1, 2, 3], v_j = point_vertex 1 [4, 6, 8]\<rparr>))
        (1 / 1000000)
        \<lparr>v_i = point_vertex 0 [1, 2, 3], v_j = point_vertex 1 [4, 6, 8]\<rparr>
     = Inr (\<lparr>v_i = point_vertex 0 [1, 2, 3], v_j = point_vertex 1 [4, 6, 8]\<rparr>,
            \<lparr>maxNumVertices = 2, maxDimension = 9,
              storage = [[- 1, 0, 0, 0, - 1, 0, 0, 0, - 1], [1, 0, 0, 0, 1, 0, 0, 0, 1]]\<rparr>)
   \<and> evaluateNumeric (point_edge [1, 1, 1] None)
        \<lparr>maxNumVertices = 0, maxDimension = 0, storage = []\<rparr> (1 / 1000000)
        \<lparr>v_i = point_vertex 0 [1, 2, 3], v_j = point_vertex 1 [4, 6, 8]\<rparr>
     = Inl (WorkspaceNotAllocated,
            \<lparr>v_i = point_vertex 0 [1, 2, 3], v_j = point_vertex 1 [4, 6, 8]\<rparr>,
            \<lparr>maxNumVertices = 0, maxDimension = 0, storage = []\<rparr>)
   \<and> evaluateNumeric ((point_edge [1, 1, 1] None)\<lparr>dim_e := 2\<rparr>)
        \<lparr>maxNumVertices = 0, maxDimension = 0, storage = []\<rparr> (1 / 1000000)
        \<lparr>v_i = point_vertex 0 [1, 2, 3], v_j = point_vertex 1 [4, 6, 8]\<rparr>
     = Inl (DimensionMismatch,
            \<lparr>v_i = point_vertex 0 [1, 2, 3], v_j = point_vertex 1 [4, 6, 8]\<rparr>,
            \<lparr>maxNumVertices = 0, maxDimension = 0, storage = []\<rparr>)"
  using evaluateNumeric_central_difference_restore
    [where eps = "1 / 1000000" and E = "point_edge [1, 1, 1] None"
       and ws = "allocate (updateSize \<lparr>maxNumVertices = 0, maxDimension = 0, storage = []\<rparr>
           (point_edge [1, 1, 1] None)
           \<lparr>v_i = point_vertex 0 [1, 2, 3], v_j = point_vertex 1 [4, 6, 8]\<rparr>)"
       and vs = "\<lparr>v_i = point_vertex 0 [1, 2, 3], v_j = point_vertex 1 [4, 6, 8]\<rparr>"]
    evaluateNumeric_central_difference_restore
    [where eps = "1 / 1000000" and E = "point_edge [1, 1, 1] None"
       and ws = "\<lparr>maxNumVertices = 0, maxDimension = 0, storage = []\<rparr>"
       and vs = "\<lparr>v_i = point_vertex 0 [1, 2, 3], v_j = point_vertex 1 [4, 6, 8]\<rparr>"]
    evaluateNumeric_central_difference_restore
    [where eps = "1 / 1000000" and E = "(point_edge [1, 1, 1] None)\<lparr>dim_e := 2\<rparr>"
       and ws = "\<lparr>maxNumVertices = 0, maxDimension = 0, storage = []\<rparr>"
       and vs = "\<lparr>v_i = point_vertex 0 [1, 2, 3], v_j = point_vertex 1 [4, 6, 8]\<rparr>"]
  by (simp add: eval_dispatch sized_for_def allocate_def updateSize_def replicate_2 replicate_9)

section \<open>Reuse of the workspace\<close>

text \<open>
  Claim C8. A workspace that was sized by \<open>updateSize\<close> and allocated by \<open>allocate\<close> for
  an edge is sized for it; every successful evaluation leaves the workspace sized for
  whatever it was sized for before; and on any two workspaces sized for the edge, whatever
  they contain from previous evaluations, an evaluation with the same edge and vertices that
  succeeds on one succeeds on the other, and the two blocks read afterwards, of \<open>D_e * D_vi\<close>
  scalars in slot 0 and \<open>D_e * D_vj\<close> scalars in slot 1, are the same: they depend on the
  inputs of that evaluation only. The theorem is instantiated at an edge between two points
  and a workspace with room for twelve scalars in each slot, once freshly allocated and once
  filled with other data: the nine scalars of each block agree, the three behind them keep
  what they held.
\<close>

theorem workspace_reuse:
  fixes E :: "('v, 'z) edge"
  assumes "sized_for ws E vs" and "sized_for ws_other E vs"
    and "evaluate E ws eps vs = Inr (vs_out, ws_out)"
  shows "sized_for (allocate (updateSize ws_init E vs)) E vs
     \<and> (\<forall>(E' :: ('v, 'z) edge) vs'. sized_for ws E' vs' \<longrightarrow> sized_for ws_out E' vs')
     \<and> (\<exists>ws_out2. evaluate E ws_other eps vs = Inr (vs_out, ws_out2)
           \<and> blockFor ws_out2 0 (dim_e E * dimension (v_i vs)) =
               blockFor ws_out 0 (dim_e E * dimension (v_i vs))
           \<and> blockFor ws_out2 1 (dim_e E * dimension (v_j vs)) =
               blockFor ws_out 1 (dim_e E * dimension (v_j vs)))"
proof -
  have shape: "length (storage ws_out) = length (storage ws)"
    "\<forall>s. length (storage ws_out ! s) = length (storage ws ! s)"
    using evaluate_shape [OF assms(3)] by simp_all
  have pres: "\<forall>(E' :: ('v, 'z) edge) vs'. sized_for ws E' vs' \<longrightarrow> sized_for ws_out E' vs'"
    using sized_for_shape [OF _ shape] by blast
  show ?thesis
    using sized_for_allocate [of ws_init E vs] pres evaluate_blocks_agree [OF assms]
    by blast
qed

theorem workspace_reuse_witness:
  "sized_for
     (allocate (updateSize \<lparr>maxNumVertices = 2, maxDimension = 12, storage = []\<rparr>
        (point_edge [1, 1, 1] None)
        \<lparr>v_i = point_vertex 0 [1, 2, 3], v_j = point_vertex 1 [4, 6, 8]\<rparr>))
     (point_edge [1, 1, 1] None)
     \<lparr>v_i = point_vertex 0 [1, 2, 3], v_j = point_vertex 1 [4, 6, 8]\<rparr>
   \<and> sized_for
     \<lparr>maxNumVertices = 2, maxDimension = 12,
       storage = [[5, 5, 5, 5, 5, 5, 5, 5, 5, 5, 5, 5], [7, 7, 7, 7, 7, 7, 7, 7, 7, 7, 7, 7]]\<rparr>
     (point_edge [1, 1, 1] None)
     \<lparr>v_i = point_vertex 0 [1, 2, 3], v_j = point_vertex 1 [4, 6, 8]\<rparr>
   \<and> evaluate (point_edge [1, 1, 1] None)
        (allocate (updateSize \<lparr>maxNumVertices = 2, maxDimension = 12, storage = []\<rparr>
           (point_edge [1, 1, 1] None)
           \<lparr>v_i = point_vertex 0 [1, 2, 3], v_j = point_vertex 1 [4, 6, 8]\<rparr>))
        (1 / 1000000)
        \<lparr>v_i = point_vertex 0 [1, 2, 3], v_j = point_vertex 1 [4, 6, 8]\<rparr>
     = Inr (\<lparr>v_i = point_vertex 0 [1, 2, 3], v_j = point_vertex 1 [4, 6, 8]\<rparr>,
            \<lparr>maxNumVertices = 2, maxDimension = 12,
              storage = [[- 1, 0, 0, 0, - 1, 0, 0, 0, - 1, 0, 0, 0],
                         [1, 0, 0, 0, 1, 0, 0, 0, 1, 0, 0, 0]]\<rparr>)
   \<and> evaluate (point_edge [1, 1, 1] None)
        \<lparr>maxNumVertices = 2, maxDimension = 12,
          storage = [[5, 5, 5, 5, 5, 5, 5, 5, 5, 5, 5, 5], [7, 7, 7, 7, 7, 7, 7, 7, 7, 7, 7, 7]]\<rparr>
        (1 / 1000000)
        \<lparr>v_i = point_vertex 0 [1, 2, 3], v_j = point_vertex 1 [4, 6, 8]\<rparr>
     = Inr (\<lparr>v_i = point_vertex 0 [1, 2, 3], v_j = point_vertex 1 [4, 6, 8]\<rparr>,
            \<lparr>maxNumVertices = 2, maxDimension = 12,
              storage = [[- 1, 0, 0, 0, - 1, 0, 0, 0, - 1, 5, 5, 5],
                         [1, 0, 0, 0, 1, 0, 0, 0, 1, 7, 7, 7]]\<rparr>)"
  using workspace_reuse
    [where E = "point_edge [1, 1, 1] None" and eps = "1 / 1000000"
       and vs = "\<lparr>v_i = point_vertex 0 [1, 2, 3], v_j = point_vertex 1 [4, 6, 8]\<rparr>"
       and vs_out = "\<lparr>v_i = point_vertex 0 [1, 2, 3], v_j = point_vertex 1 [4, 6, 8]\<rparr>"
       and ws = "allocate (updateSize \<lparr>maxNumVertices = 2, maxDimension = 12, storage = []\<rparr>
           (point_edge [1, 1, 1] None)
           \<lparr>v_i = point_vertex 0 [1, 2, 3], v_j = point_vertex 1 [4, 6, 8]\<rparr>)"
       and ws_other = "\<lparr>maxNumVertices = 2, maxDimension = 12,
          storage = [[5, 5, 5, 5, 5, 5, 5, 5, 5, 5, 5, 5], [7, 7, 7, 7, 7, 7, 7, 7, 7, 7, 7, 7]]\<rparr>"
       and ws_out = "\<lparr>maxNumVertices = 2, maxDimension = 12,
              storage = [[- 1, 0, 0, 0, - 1, 0, 0, 0, - 1, 0, 0, 0],
                         [1, 0, 0, 0, 1, 0, 0, 0, 1, 0, 0, 0]]\<rparr>"
       and ws_init = "\<lparr>maxNumVertices = 2, maxDimension = 12, storage = []\<rparr>"]
  by (simp add: evaluate_def sized_for_def eval_dispatch allocate_def updateSize_def
        replicate_2 replicate_12)

end
